theory Spec2Isabelle
  imports Complex_Main
begin

section \<open>Numbers of the source\<close>

text \<open>
  The source is TypeScript: every number is a double. Time stamps, durations and the
  tempo are modelled as exact rationals (\<open>rat\<close>), so rounding of the floating-point
  unit is not part of the model. Fields that only ever hold whole numbers (beats, bars,
  subdivisions, MIDI data bytes, timer ids) are \<open>int\<close> or \<open>nat\<close>.

  \<open>%\<close> is the truncated remainder: its result has the sign of the dividend.
  A zero divisor gives NaN in the source; the functions below are only meaningful for a
  non-zero divisor, and every theorem that depends on it assumes a positive one.
\<close>

definition js_rem :: "int \<Rightarrow> int \<Rightarrow> int" where
  "js_rem a b = sgn a * (\<bar>a\<bar> mod \<bar>b\<bar>)"

definition js_trunc :: "rat \<Rightarrow> int" where
  "js_trunc x = (if 0 \<le> x then \<lfloor>x\<rfloor> else \<lceil>x\<rceil>)"

definition js_fmod :: "rat \<Rightarrow> rat \<Rightarrow> rat" where
  "js_fmod a b = a - b * of_int (js_trunc (a / b))"

section \<open>ClockService\<close>

datatype clock_source = Internal | External

text \<open>
  \<open>ClockPulse\<close> and \<open>ClockState\<close> both have a field called \<open>subdivision\<close> in the
  source; the one of the pulse is \<open>pulseSubdivision\<close> here.
\<close>

record clock_pulse =
  timestamp :: rat
  beat :: int
  bar :: int
  pulseSubdivision :: int

record clock_state =
  isRunning :: bool
  currentBeat :: int
  currentBar :: int
  beatsPerBar :: int
  subdivision :: int

text \<open>
  The service with what it reads from its collaborators: \<open>currentBpm\<close> and
  \<open>clockSource\<close> are the two values of the settings service that the clock reads,
  \<open>pendingTimeouts\<close> (timer id and due time) and \<open>nextTimeoutId\<close> are the browser's timer
  table, and \<open>emitted\<close> records every pulse handed to \<open>_lastPulse.set\<close> and \<open>onPulse\<close>,
  oldest first.
\<close>

record clock_service =
  intervalId :: "nat option"
  startTime :: rat
  pausedTime :: rat
  lastPulseTime :: rat
  clockState :: clock_state
  lastPulse :: "clock_pulse option"
  currentBpm :: rat
  clockSource :: clock_source
  pendingTimeouts :: "(nat \<times> rat) list"
  nextTimeoutId :: nat
  emitted :: "clock_pulse list"

definition clock_init :: clock_service where
  "clock_init = \<lparr>
     intervalId = None, startTime = 0, pausedTime = 0, lastPulseTime = 0,
     clockState = \<lparr>isRunning = False, currentBeat = 1, currentBar = 1,
                    beatsPerBar = 4, subdivision = 16\<rparr>,
     lastPulse = None, currentBpm = 120, clockSource = Internal,
     pendingTimeouts = [], nextTimeoutId = 1, emitted = []\<rparr>"

subsection \<open>Browser timers\<close>

definition clockSetTimeout :: "rat \<Rightarrow> rat \<Rightarrow> clock_service \<Rightarrow> nat \<times> clock_service" where
  "clockSetTimeout now delay s =
     (nextTimeoutId s,
      s\<lparr>pendingTimeouts := pendingTimeouts s @ [(nextTimeoutId s, now + max 0 delay)],
        nextTimeoutId := Suc (nextTimeoutId s)\<rparr>)"

definition clockClearTimeout :: "nat \<Rightarrow> clock_service \<Rightarrow> clock_service" where
  "clockClearTimeout tid s =
     s\<lparr>pendingTimeouts := filter (\<lambda>t. fst t \<noteq> tid) (pendingTimeouts s)\<rparr>"

subsection \<open>Timing\<close>

definition millisecondsPerBeat :: "clock_service \<Rightarrow> rat" where
  "millisecondsPerBeat s =
     (let bpm = currentBpm s in
      if bpm \<le> 0 \<or> bpm > 1000 then 60000 / 120 else 60000 / bpm)"

definition millisecondsPerSubdivision :: "clock_service \<Rightarrow> rat" where
  "millisecondsPerSubdivision s =
     (let sub = subdivision (clockState s); mpb = millisecondsPerBeat s in
      if sub \<le> 0 \<or> sub > 64 then mpb / 4
      else let result = mpb / (of_int sub / 4) in
           if result < 5 then 5 else result)"

subsection \<open>Scheduling and setters\<close>

definition nextPulseDelay :: "rat \<Rightarrow> clock_service \<Rightarrow> rat" where
  "nextPulseDelay now s =
     (let timeSinceLastPulse = now - lastPulseTime s;
          subdivisionInterval = millisecondsPerSubdivision s;
          d0 = subdivisionInterval - js_fmod timeSinceLastPulse subdivisionInterval;
          d1 = max d0 10;
          d2 = max d1 5
      in if subdivisionInterval < 5 then 5 else d2)"

definition scheduleNextPulse :: "rat \<Rightarrow> clock_service \<Rightarrow> clock_service" where
  "scheduleNextPulse now s =
     (if \<not> isRunning (clockState s) then s
      else let (tid, s') = clockSetTimeout now (nextPulseDelay now s) s
           in s'\<lparr>intervalId := Some tid\<rparr>)"

definition updateClockTiming :: "rat \<Rightarrow> clock_service \<Rightarrow> clock_service" where
  "updateClockTiming now s =
     (if isRunning (clockState s) \<and> clockSource s = Internal then
        scheduleNextPulse now
          (case intervalId s of
             None \<Rightarrow> s
           | Some tid \<Rightarrow> (clockClearTimeout tid s)\<lparr>intervalId := None\<rparr>)
      else s)"

definition setBeatsPerBar :: "int \<Rightarrow> clock_service \<Rightarrow> clock_service" where
  "setBeatsPerBar beats s =
     (if beats \<ge> 1 \<and> beats \<le> 16
      then s\<lparr>clockState := (clockState s)\<lparr>beatsPerBar := beats\<rparr>\<rparr>
      else s)"

text \<open>\<open>now\<close> is what \<open>performance.now()\<close> returns inside \<open>scheduleNextPulse\<close>.\<close>

definition setSubdivision :: "rat \<Rightarrow> int \<Rightarrow> clock_service \<Rightarrow> clock_service" where
  "setSubdivision now sub s =
     (if sub \<in> set [4, 8, 16, 32] then
        let s1 = s\<lparr>clockState := (clockState s)\<lparr>subdivision := sub\<rparr>\<rparr>
        in if isRunning (clockState s1) then updateClockTiming now s1 else s1
      else s)"

subsection \<open>Internal clock\<close>

definition startInternalClock :: "rat \<Rightarrow> rat \<Rightarrow> clock_service \<Rightarrow> clock_service" where
  "startInternalClock now now' s =
     (let s1 = (case intervalId s of None \<Rightarrow> s | Some tid \<Rightarrow> clockClearTimeout tid s);
          s2 = s1\<lparr>startTime := now - pausedTime s1\<rparr>;
          s3 = s2\<lparr>lastPulseTime := startTime s2\<rparr>;
          s4 = s3\<lparr>clockState := (clockState s3)\<lparr>isRunning := True\<rparr>\<rparr>
      in scheduleNextPulse now' s4)"

definition stopInternalClock :: "rat \<Rightarrow> clock_service \<Rightarrow> clock_service" where
  "stopInternalClock now s =
     (let s1 = (case intervalId s of
                  None \<Rightarrow> s
                | Some tid \<Rightarrow> (clockClearTimeout tid s)\<lparr>intervalId := None\<rparr>);
          s2 = s1\<lparr>pausedTime := now - startTime s1\<rparr>
      in s2\<lparr>clockState := (clockState s2)\<lparr>isRunning := False\<rparr>\<rparr>)"

text \<open>
  \<open>Math.floor(a / b)\<close> of two whole numbers with \<open>b \<noteq> 0\<close> is \<open>a div b\<close>.
  \<open>subdivision / 4\<close> is \<open>subdivision div 4\<close>: the constructor and \<open>setSubdivision\<close>, the
  only writers of the field, keep it among 4, 8, 16 and 32.
\<close>

definition generatePulse :: "rat \<Rightarrow> clock_service \<Rightarrow> clock_service" where
  "generatePulse now s =
     (let currentState = clockState s;
          subdivisionInterval = millisecondsPerSubdivision s
      in if subdivisionInterval < 5 then s
         else
           let elapsedTime = now - startTime s;
               totalSubdivisions = \<lfloor>elapsedTime / subdivisionInterval\<rfloor>;
               subdivisionsPerBeat = subdivision currentState div 4;
               subdivisionsPerBar = subdivisionsPerBeat * beatsPerBar currentState;
               currentSubdivision = js_rem totalSubdivisions subdivisionsPerBeat + 1;
               currentBeat' =
                 js_rem (totalSubdivisions div subdivisionsPerBeat) (beatsPerBar currentState) + 1;
               currentBar' = totalSubdivisions div subdivisionsPerBar + 1;
               s1 = (if currentBeat (clockState s) \<noteq> currentBeat' \<or>
                        currentBar (clockState s) \<noteq> currentBar'
                     then s\<lparr>clockState := (clockState s)\<lparr>currentBeat := currentBeat',
                                                            currentBar := currentBar'\<rparr>\<rparr>
                     else s);
               pulse = \<lparr>timestamp = now, beat = currentBeat', bar = currentBar',
                        pulseSubdivision = currentSubdivision\<rparr>
           in s1\<lparr>lastPulse := Some pulse, lastPulseTime := now, emitted := emitted s1 @ [pulse]\<rparr>)"

text \<open>
  The callback given to \<open>window.setTimeout\<close> in \<open>scheduleNextPulse\<close>; \<open>now\<close> and \<open>now'\<close>
  are the two readings of \<open>performance.now()\<close>, in \<open>generatePulse\<close> and in
  \<open>scheduleNextPulse\<close>.
\<close>

definition timerCallback :: "rat \<Rightarrow> rat \<Rightarrow> clock_service \<Rightarrow> clock_service" where
  "timerCallback now now' s =
     (if isRunning (clockState s) then scheduleNextPulse now' (generatePulse now s) else s)"

text \<open>The browser runs a pending timer: it leaves the table and its callback runs.\<close>

definition fireTimeout :: "nat \<Rightarrow> rat \<Rightarrow> rat \<Rightarrow> clock_service \<Rightarrow> clock_service" where
  "fireTimeout tid now now' s =
     (if tid \<in> fst ` set (pendingTimeouts s)
      then timerCallback now now' (clockClearTimeout tid s)
      else s)"

text \<open>
  A run of the self-scheduling loop: each element of the list is the extra delay the
  browser adds to the timer that is due next.
\<close>

fun runClock :: "rat list \<Rightarrow> clock_service \<Rightarrow> clock_service" where
  "runClock [] s = s"
| "runClock (j # js) s =
     (case pendingTimeouts s of
        [] \<Rightarrow> s
      | (tid, due) # _ \<Rightarrow> runClock js (fireTimeout tid (due + j) (due + j) s))"


subsection \<open>External clock\<close>

definition handleMidiClockStart :: "rat \<Rightarrow> clock_service \<Rightarrow> clock_service" where
  "handleMidiClockStart now s =
     (if clockSource s = External
      then s\<lparr>clockState := (clockState s)\<lparr>isRunning := True\<rparr>, startTime := now, pausedTime := 0\<rparr>
      else s)"

definition handleMidiClockStop :: "rat \<Rightarrow> clock_service \<Rightarrow> clock_service" where
  "handleMidiClockStop now s =
     (if clockSource s = External
      then s\<lparr>clockState := (clockState s)\<lparr>isRunning := False\<rparr>, pausedTime := now - startTime s\<rparr>
      else s)"

definition handleMidiClockPulse :: "rat \<Rightarrow> clock_service \<Rightarrow> clock_service" where
  "handleMidiClockPulse now s =
     (if clockSource s = External \<and> isRunning (clockState s) then generatePulse now s else s)"


definition spec_delay :: "rat \<Rightarrow> clock_service \<Rightarrow> rat" where
  "spec_delay now s =
     (let ms = millisecondsPerSubdivision s; elapsed = now - startTime s
      in max 5 (ms - js_fmod elapsed ms))"

text \<open>The pulse that \<open>generatePulse\<close> builds at time \<open>now\<close>, as one term.\<close>

definition pulseAt :: "rat \<Rightarrow> clock_service \<Rightarrow> clock_pulse" where
  "pulseAt now s =
     (let t = \<lfloor>(now - startTime s) / millisecondsPerSubdivision s\<rfloor>;
          spb = subdivision (clockState s) div 4;
          bpb = beatsPerBar (clockState s)
      in \<lparr>timestamp = now, beat = js_rem (t div spb) bpb + 1, bar = t div (spb * bpb) + 1,
          pulseSubdivision = js_rem t spb + 1\<rparr>)"

section \<open>MidiService\<close>

text \<open>
  \<open>detectedBPM\<close> holds \<open>Math.round(60000 / (avgInterval * 24))\<close>, which is \<open>Infinity\<close>
  when the average interval is zero.
\<close>

datatype bpm_reading = Finite int | Infinity

datatype timer_action = NoteOffTimer int int | ClockWatchdog

datatype window_event = MidiQuarterNote bpm_reading int | PlaybackTrigger int nat nat

text \<open>
  The service in its browser. \<open>hasOutput\<close> says that \<open>selectedOutput()?.output\<close> is
  there; the key \<open>`${channel}-${note}`\<close> of \<open>noteOffTimeouts\<close> is the pair of channel and
  note. The last five fields are the browser: \<open>performanceNow\<close> is the clock that
  \<open>performance.now()\<close> reads and the timers run on, \<open>timers\<close> holds the pending
  timeouts (id, due time, callback), \<open>sent\<close> logs what \<open>output.send\<close> received and when,
  \<open>windowEvents\<close> what \<open>window.dispatchEvent\<close> received.
\<close>

record midi_service =
  hasOutput :: bool
  noteOffTimeouts :: "(int \<times> int) \<rightharpoonup> nat"
  isReceivingClock :: bool
  detectedBPM :: bpm_reading
  clockCount :: int
  lastClockTime :: rat
  clockTimes :: "rat list"
  clockTimeout :: "nat option"
  performanceNow :: rat
  timers :: "(nat \<times> rat \<times> timer_action) list"
  nextTimerId :: nat
  sent :: "(rat \<times> int list) list"
  windowEvents :: "window_event list"

definition midi_init :: midi_service where
  "midi_init = \<lparr>
     hasOutput = False, noteOffTimeouts = Map.empty, isReceivingClock = False,
     detectedBPM = Finite 0, clockCount = 0, lastClockTime = 0, clockTimes = [],
     clockTimeout = None, performanceNow = 0, timers = [], nextTimerId = 1,
     sent = [], windowEvents = []\<rparr>"

subsection \<open>Browser timers and the output port\<close>

definition midiSetTimeout :: "timer_action \<Rightarrow> rat \<Rightarrow> midi_service \<Rightarrow> nat \<times> midi_service" where
  "midiSetTimeout act delay m =
     (nextTimerId m,
      m\<lparr>timers := timers m @ [(nextTimerId m, performanceNow m + max 0 delay, act)],
        nextTimerId := Suc (nextTimerId m)\<rparr>)"

definition midiClearTimeout :: "nat \<Rightarrow> midi_service \<Rightarrow> midi_service" where
  "midiClearTimeout tid m = m\<lparr>timers := filter (\<lambda>t. fst t \<noteq> tid) (timers m)\<rparr>"

text \<open>
  \<open>const output = this.selectedOutput()?.output; if (!output) return; output.send(bytes)\<close>:
  the port takes every message.
\<close>

definition outputSend :: "int list \<Rightarrow> midi_service \<Rightarrow> midi_service" where
  "outputSend bytes m =
     (if hasOutput m then m\<lparr>sent := sent m @ [(performanceNow m, bytes)]\<rparr> else m)"

definition sendNoteOn :: "int \<Rightarrow> int \<Rightarrow> int \<Rightarrow> midi_service \<Rightarrow> midi_service" where
  "sendNoteOn n velo ch m = outputSend [0x90 + ch, n, velo] m"

definition sendNoteOff :: "int \<Rightarrow> int \<Rightarrow> midi_service \<Rightarrow> midi_service" where
  "sendNoteOff n ch m = outputSend [0x80 + ch, n, 0] m"

definition sendControlChange :: "int \<Rightarrow> int \<Rightarrow> int \<Rightarrow> midi_service \<Rightarrow> midi_service" where
  "sendControlChange ctrl val ch m = outputSend [0xB0 + ch, ctrl, val] m"

subsection \<open>playNote\<close>

text \<open>\<open>if (existingTimeout)\<close> is true for every timer id but 0.\<close>

definition playNote :: "int \<Rightarrow> int \<Rightarrow> int \<Rightarrow> rat \<Rightarrow> midi_service \<Rightarrow> midi_service" where
  "playNote n velo ch duration m =
     (let m1 = sendNoteOn n velo ch m;
          noteKey = (ch, n);
          m2 = (case noteOffTimeouts m1 noteKey of
                  None \<Rightarrow> m1
                | Some existingTimeout \<Rightarrow>
                    if existingTimeout \<noteq> 0 then midiClearTimeout existingTimeout m1 else m1);
          (timeoutId, m3) = midiSetTimeout (NoteOffTimer n ch) duration m2
      in m3\<lparr>noteOffTimeouts := (noteOffTimeouts m3)(noteKey \<mapsto> timeoutId)\<rparr>)"

subsection \<open>External clock\<close>

definition onQuarterNote :: "midi_service \<Rightarrow> midi_service" where
  "onQuarterNote m =
     m\<lparr>windowEvents := windowEvents m @ [MidiQuarterNote (detectedBPM m) (clockCount m)]\<rparr>"

text \<open>\<open>Math.round\<close> rounds a half up.\<close>

definition estimateBpm :: "rat list \<Rightarrow> bpm_reading" where
  "estimateBpm intervals =
     (let avgInterval = sum_list intervals / of_nat (length intervals) in
      if avgInterval * 24 = 0 then Infinity
      else Finite \<lfloor>60000 / (avgInterval * 24) + 1 / 2\<rfloor>)"

definition handleMidiClock :: "midi_service \<Rightarrow> midi_service" where
  "handleMidiClock m =
     (let now = performanceNow m;
          m1 = (if lastClockTime m > 0 then
                  let pushed = clockTimes m @ [now - lastClockTime m];
                      kept = (if length pushed > 24 then tl pushed else pushed);
                      m' = m\<lparr>clockTimes := kept\<rparr>
                  in if length kept \<ge> 24 then m'\<lparr>detectedBPM := estimateBpm kept\<rparr> else m'
                else m);
          m2 = m1\<lparr>lastClockTime := now, clockCount := clockCount m1 + 1,
                  isReceivingClock := True\<rparr>;
          m3 = (if js_rem (clockCount m2) 24 = 0 then onQuarterNote m2 else m2);
          m4 = (case clockTimeout m3 of
                  None \<Rightarrow> m3
                | Some t \<Rightarrow> if t \<noteq> 0 then midiClearTimeout t m3 else m3);
          (tid, m5) = midiSetTimeout ClockWatchdog 2000 m4
      in m5\<lparr>clockTimeout := Some tid\<rparr>)"

definition handleMidiMessage :: "int list \<Rightarrow> midi_service \<Rightarrow> midi_service" where
  "handleMidiMessage data m =
     (case data of
        [] \<Rightarrow> m
      | status # _ \<Rightarrow>
          if status = 0xF8 then handleMidiClock m
          else if status = 0xFA then m\<lparr>clockCount := 0\<rparr>
          else if status = 0xFC then
            (let m1 = m\<lparr>isReceivingClock := False, detectedBPM := Finite 0\<rparr>
             in case clockTimeout m1 of
                  None \<Rightarrow> m1
                | Some t \<Rightarrow>
                    if t \<noteq> 0 then (midiClearTimeout t m1)\<lparr>clockTimeout := None\<rparr> else m1)
          else m)"

subsection \<open>The event loop\<close>

text \<open>The callbacks the service hands to \<open>window.setTimeout\<close>.\<close>

fun runTimerAction :: "timer_action \<Rightarrow> midi_service \<Rightarrow> midi_service" where
  "runTimerAction (NoteOffTimer n ch) m =
     (let m1 = sendNoteOff n ch m
      in m1\<lparr>noteOffTimeouts := (noteOffTimeouts m1)((ch, n) := None)\<rparr>)"
| "runTimerAction ClockWatchdog m = m\<lparr>isReceivingClock := False, detectedBPM := Finite 0\<rparr>"

text \<open>The pending timer that is due first; the older one of two that are due together.\<close>

fun earliest :: "(nat \<times> rat \<times> timer_action) list \<Rightarrow> (nat \<times> rat \<times> timer_action) option" where
  "earliest [] = None"
| "earliest (t # ts) =
     (case earliest ts of
        None \<Rightarrow> Some t
      | Some u \<Rightarrow> if fst (snd u) < fst (snd t) then Some u else Some t)"

definition nextDue :: "rat \<Rightarrow> midi_service \<Rightarrow> (nat \<times> rat \<times> timer_action) option" where
  "nextDue T m =
     (case earliest (timers m) of
        None \<Rightarrow> None
      | Some t \<Rightarrow> if fst (snd t) \<le> T then Some t else None)"

text \<open>
  Time passes until \<open>T\<close>: every timer due by then runs at its due time, in order, and
  leaves the table; nothing else happens in between.
\<close>

function advance :: "rat \<Rightarrow> midi_service \<Rightarrow> midi_service" where
  "advance T m =
     (case nextDue T m of
        None \<Rightarrow> m\<lparr>performanceNow := max (performanceNow m) T\<rparr>
      | Some (tid, due, act) \<Rightarrow>
          advance T (runTimerAction act
            (m\<lparr>timers := filter (\<lambda>t. fst t \<noteq> tid) (timers m),
               performanceNow := max (performanceNow m) due\<rparr>)))"
  by pat_completeness auto


lemma earliest_mem: "earliest ts = Some t \<Longrightarrow> t \<in> set ts"
  by (induction ts arbitrary: t) (auto split: option.splits if_splits)

lemma runTimerAction_timers: "timers (runTimerAction act m) = timers m"
  by (cases act) (simp_all add: sendNoteOff_def outputSend_def Let_def)

lemma nextDue_shrinks:
  assumes "nextDue T m = Some (tid, due, act)"
  shows "length (filter (\<lambda>t. fst t \<noteq> tid) (timers m)) < length (timers m)"
proof -
  have "(tid, due, act) \<in> set (timers m)"
    using assms by (auto simp: nextDue_def split: option.splits if_splits dest: earliest_mem)
  then show ?thesis
    using length_filter_less[of "(tid, due, act)" "timers m" "\<lambda>t. fst t \<noteq> tid"] by simp
qed

termination advance
  by (relation "measure (\<lambda>(T, m). length (timers m))")
     (auto simp: runTimerAction_timers dest: nextDue_shrinks)

text \<open>External clock ticks arriving at the given times, with the timers running in between.\<close>

fun feedClock :: "rat list \<Rightarrow> midi_service \<Rightarrow> midi_service" where
  "feedClock [] m = m"
| "feedClock (t # ts) m = feedClock ts (handleMidiClock (advance t m))"

definition uniformTicks :: "rat \<Rightarrow> rat \<Rightarrow> nat \<Rightarrow> rat list" where
  "uniformTicks t0 d k = map (\<lambda>i. t0 + of_nat i * d) [0..<k]"

text \<open>
  What the specification says of the window, in its own words: the intervals between
  successive ticks (none for the first tick), the last 24 of them, and their mean.
\<close>

fun intervals :: "rat list \<Rightarrow> rat list" where
  "intervals (a # b # ts) = (b - a) # intervals (b # ts)"
| "intervals ts = []"



section \<open>Instance registries\<close>

text \<open>
  \<open>LabNoteConfig\<close> and \<open>LabControlConfig\<close> of the lab state service, which the playback
  service reads. Both have fields \<open>id\<close>, \<open>enabled\<close> and \<open>channel\<close> in the source; they
  carry the name of their record here, and \<open>note\<close> is \<open>noteNumber\<close>.
\<close>

datatype display_mode = Common | All | Drums | Octave

record lab_note_config =
  noteId :: string
  noteEnabled :: bool
  noteNumber :: int
  velocity :: int
  noteChannel :: int
  octave :: int
  displayMode :: display_mode
  useFlats :: bool

record lab_control_config =
  controlId :: string
  controlEnabled :: bool
  controller :: int
  controlValue :: int
  controlChannel :: int

text \<open>
  \<open>MidiNote\<close> of the pattern service; \<open>hasOnDelete\<close> says that the instance was given
  the \<open>onDelete\<close> callback, which \<open>createNote\<close> sets to \<open>deleteNoteById\<close>.
\<close>

record midi_note =
  instanceId :: string
  instanceNote :: int
  instanceVelocity :: int
  instanceChannel :: int
  hasOnDelete :: bool

section \<open>PlaybackService\<close>

record playback_state =
  isPlaying :: bool
  isEnabled :: bool
  lastTriggerTime :: "int option"

text \<open>
  The services that playback touches: its own state, the lab state (\<open>noteConfigs\<close>,
  \<open>controlConfigs\<close>, \<open>modified\<close>, \<open>isDirty\<close>; saving it is left to the storage), the
  notes of the pattern service, and the MIDI service.
\<close>

record app =
  playbackState :: playback_state
  noteConfigs :: "lab_note_config list"
  controlConfigs :: "lab_control_config list"
  modified :: int
  isDirty :: bool
  patternNotes :: "midi_note list"
  midi :: midi_service

definition app_init :: app where
  "app_init = \<lparr>
     playbackState = \<lparr>isPlaying = False, isEnabled = False, lastTriggerTime = None\<rparr>,
     noteConfigs = [], controlConfigs = [], modified = 0, isDirty = False,
     patternNotes = [], midi = midi_init\<rparr>"

subsection \<open>Deleting instances\<close>

definition removeNoteConfig :: "int \<Rightarrow> string \<Rightarrow> app \<Rightarrow> app" where
  "removeNoteConfig dateNow i a =
     a\<lparr>modified := dateNow,
       noteConfigs := filter (\<lambda>config. noteId config \<noteq> i) (noteConfigs a),
       isDirty := True\<rparr>"

definition deleteNoteById :: "string \<Rightarrow> app \<Rightarrow> app" where
  "deleteNoteById i a = a\<lparr>patternNotes := filter (\<lambda>x. instanceId x \<noteq> i) (patternNotes a)\<rparr>"

text \<open>\<open>MidiNote.delete\<close>.\<close>

definition noteDelete :: "midi_note \<Rightarrow> app \<Rightarrow> app" where
  "noteDelete x a = (if hasOnDelete x then deleteNoteById (instanceId x) a else a)"

text \<open>\<open>MidiPatternService.playNote\<close>.\<close>

definition patternPlayNote :: "midi_note \<Rightarrow> rat \<Rightarrow> app \<Rightarrow> app" where
  "patternPlayNote x duration a =
     a\<lparr>midi := playNote (instanceNote x) (instanceVelocity x) (instanceChannel x) duration (midi a)\<rparr>"

subsection \<open>Triggering\<close>

text \<open>\<open>dateNow\<close> is what \<open>Date.now()\<close> returns.\<close>

definition triggerPlayback :: "int \<Rightarrow> app \<Rightarrow> app" where
  "triggerPlayback dateNow a =
     (let a1 = a\<lparr>playbackState := (playbackState a)\<lparr>lastTriggerTime := Some dateNow\<rparr>\<rparr>;
          enabledNoteConfigs = filter noteEnabled (noteConfigs a1);
          m1 = foldl (\<lambda>m config. playNote (noteNumber config) (velocity config) (noteChannel config) 100 m)
                 (midi a1) enabledNoteConfigs;
          enabledControlConfigs = filter controlEnabled (controlConfigs a1);
          m2 = foldl (\<lambda>m config. sendControlChange (controller config) (controlValue config)
                                     (controlChannel config) m)
                 m1 enabledControlConfigs;
          m3 = m2\<lparr>windowEvents := windowEvents m2 @
                  [PlaybackTrigger dateNow (length enabledNoteConfigs)
                     (length enabledControlConfigs)]\<rparr>
      in a1\<lparr>midi := m3\<rparr>)"

definition enablePlayback :: "app \<Rightarrow> app" where
  "enablePlayback a = a\<lparr>playbackState := (playbackState a)\<lparr>isEnabled := True\<rparr>\<rparr>"

definition disablePlayback :: "app \<Rightarrow> app" where
  "disablePlayback a =
     a\<lparr>playbackState := (playbackState a)\<lparr>isEnabled := False, isPlaying := False\<rparr>\<rparr>"

definition stopPlayback :: "app \<Rightarrow> app" where
  "stopPlayback a = a\<lparr>playbackState := (playbackState a)\<lparr>isPlaying := False\<rparr>\<rparr>"

definition manualTrigger :: "int \<Rightarrow> app \<Rightarrow> app" where
  "manualTrigger dateNow a = (if isEnabled (playbackState a) then triggerPlayback dateNow a else a)"

text \<open>
  The body of the effect set up by \<open>setupClockPulseListener\<close>, run on the signals of the
  clock service \<open>c\<close>; the debug logging is left out.
\<close>

definition clockPulseEffect :: "int \<Rightarrow> clock_service \<Rightarrow> app \<Rightarrow> app" where
  "clockPulseEffect dateNow c a =
     (case lastPulse c of
        None \<Rightarrow> a
      | Some p \<Rightarrow>
          if clockSource c = Internal \<and> isRunning (clockState c) \<and>
             isPlaying (playbackState a) \<and> isEnabled (playbackState a)
          then
            let subdivisionsPerQuarterNote = max 1 (subdivision (clockState c) div 4)
            in if js_rem (pulseSubdivision p - 1) subdivisionsPerQuarterNote = 0
               then triggerPlayback dateNow a
               else a
          else a)"

text \<open>The listener of the \<open>midiQuarterNote\<close> event.\<close>

definition quarterNoteListener :: "int \<Rightarrow> app \<Rightarrow> app" where
  "quarterNoteListener dateNow a =
     (if isPlaying (playbackState a) \<and> isEnabled (playbackState a)
      then triggerPlayback dateNow a else a)"

text \<open>Whether a run of the effect dispatched a \<open>playbackTrigger\<close> event.\<close>

definition dispatched :: "int \<Rightarrow> clock_service \<Rightarrow> app \<Rightarrow> bool" where
  "dispatched dateNow c a =
     (length (windowEvents (midi (clockPulseEffect dateNow c a))) \<noteq> length (windowEvents (midi a)))"

text \<open>Time passes for the whole application.\<close>

definition advanceApp :: "rat \<Rightarrow> app \<Rightarrow> app" where
  "advanceApp T a = a\<lparr>midi := advance T (midi a)\<rparr>"

section \<open>Properties of the clock\<close>

subsection \<open>Arithmetic of the source\<close>

lemma js_rem_nonneg: "0 \<le> a \<Longrightarrow> 0 < b \<Longrightarrow> js_rem a b = a mod b"
  by (cases "a = 0") (simp_all add: js_rem_def)

lemma js_rem_eq_0_iff: "0 < b \<Longrightarrow> js_rem a b = 0 \<longleftrightarrow> a mod b = 0"
  unfolding js_rem_def
  by (cases "a = 0"; cases "a < 0"; simp add: sgn_if dvd_eq_mod_eq_0[symmetric] mod_eq_0_iff_dvd)

lemma div_step:
  fixes B :: int
  assumes "0 < n"
  shows "(B + 1) div n = B div n \<or> ((B + 1) div n = B div n + 1 \<and> (B + 1) mod n = 0)"
proof (cases "B mod n + 1 < n")
  case True
  have "(B + 1) div n = B div n"
    using True assms
    by (smt (verit) div_add1_eq div_pos_pos_trivial mod_pos_pos_trivial pos_mod_sign  add.right_neutral)
  then show ?thesis by simp
next
  case False
  then have e: "B mod n + 1 = n" using pos_mod_bound[OF assms, of B] by simp
  have "B + 1 = (B div n + 1) * n" using e
    by (metis add.assoc  div_mult_mod_eq distrib_right mult.commute mult_1)
  then have "(B + 1) div n = B div n + 1" "(B + 1) mod n = 0" using assms by simp_all
  then show ?thesis by simp
qed

lemma floor_step:
  fixes x y :: rat
  assumes "y \<le> x + of_int k"
  shows "\<lfloor>y\<rfloor> \<le> \<lfloor>x\<rfloor> + k"
  using assms by (metis floor_add_int floor_mono)

lemma beats_step:
  fixes x y ms :: rat and spb :: int
  assumes "0 < ms" "0 < spb" "x \<le> y" "y - x \<le> of_int spb * ms"
  shows "\<lfloor>x / ms\<rfloor> div spb \<le> \<lfloor>y / ms\<rfloor> div spb"
    and "\<lfloor>y / ms\<rfloor> div spb \<le> \<lfloor>x / ms\<rfloor> div spb + 1"
proof -
  have "x / ms \<le> y / ms" using assms(1,3) by (simp add: divide_right_mono)
  then have "\<lfloor>x / ms\<rfloor> \<le> \<lfloor>y / ms\<rfloor>" by (rule floor_mono)
  then show "\<lfloor>x / ms\<rfloor> div spb \<le> \<lfloor>y / ms\<rfloor> div spb"
    using assms(2) by (simp add: zdiv_mono1)
  have "y \<le> x + of_int spb * ms" using assms(4) by simp
  then have "y / ms \<le> (x + of_int spb * ms) / ms" using assms(1) by (simp add: divide_right_mono)
  also have "\<dots> = x / ms + of_int spb" using assms(1) by (simp add: add_divide_distrib)
  finally have "\<lfloor>y / ms\<rfloor> \<le> \<lfloor>x / ms\<rfloor> + spb" by (rule floor_step)
  then have "\<lfloor>y / ms\<rfloor> div spb \<le> (\<lfloor>x / ms\<rfloor> + spb) div spb"
    using assms(2) by (rule zdiv_mono1)
  also have "\<dots> = \<lfloor>x / ms\<rfloor> div spb + 1" using assms(2) by simp
  finally show "\<lfloor>y / ms\<rfloor> div spb \<le> \<lfloor>x / ms\<rfloor> div spb + 1" .
qed

subsection \<open>Timing\<close>

lemma millisecondsPerBeat_ge: "60 \<le> millisecondsPerBeat s"
  unfolding millisecondsPerBeat_def Let_def
  by (auto simp: field_simps)

lemma millisecondsPerSubdivision_ge: "5 \<le> millisecondsPerSubdivision s"
  using millisecondsPerBeat_ge[of s]
  unfolding millisecondsPerSubdivision_def Let_def
  by (auto simp: field_simps)

lemma interval_not_small: "\<not> millisecondsPerSubdivision s < 5"
  using millisecondsPerSubdivision_ge[of s] by simp

lemma millisecondsPerSubdivision_cong:
  "currentBpm s' = currentBpm s \<Longrightarrow> subdivision (clockState s') = subdivision (clockState s)
   \<Longrightarrow> millisecondsPerSubdivision s' = millisecondsPerSubdivision s"
  by (simp add: millisecondsPerSubdivision_def millisecondsPerBeat_def)

subsection \<open>One pulse\<close>



lemma generatePulse_keeps:
  "startTime (generatePulse now s) = startTime s"
  "currentBpm (generatePulse now s) = currentBpm s"
  "clockSource (generatePulse now s) = clockSource s"
  "pendingTimeouts (generatePulse now s) = pendingTimeouts s"
  "nextTimeoutId (generatePulse now s) = nextTimeoutId s"
  "intervalId (generatePulse now s) = intervalId s"
  "lastPulseTime (generatePulse now s) = now"
  "isRunning (clockState (generatePulse now s)) = isRunning (clockState s)"
  "subdivision (clockState (generatePulse now s)) = subdivision (clockState s)"
  "beatsPerBar (clockState (generatePulse now s)) = beatsPerBar (clockState s)"
  by (simp_all add: generatePulse_def Let_def interval_not_small)

lemma generatePulse_position:
  "currentBeat (clockState (generatePulse now s)) = beat (pulseAt now s)"
  "currentBar (clockState (generatePulse now s)) = bar (pulseAt now s)"
  by (simp_all add: generatePulse_def pulseAt_def Let_def interval_not_small)


lemma pulseAt_beats:
  assumes "subdivision (clockState s) \<in> {4, 8, 16, 32}" "1 \<le> beatsPerBar (clockState s)"
    "startTime s \<le> now"
  shows "beat (pulseAt now s) =
           (\<lfloor>(now - startTime s) / millisecondsPerSubdivision s\<rfloor> div (subdivision (clockState s) div 4))
             mod beatsPerBar (clockState s) + 1"
    and "bar (pulseAt now s) =
           (\<lfloor>(now - startTime s) / millisecondsPerSubdivision s\<rfloor> div (subdivision (clockState s) div 4))
             div beatsPerBar (clockState s) + 1"
    and "0 \<le> \<lfloor>(now - startTime s) / millisecondsPerSubdivision s\<rfloor> div (subdivision (clockState s) div 4)"
proof -
  let ?ms = "millisecondsPerSubdivision s"
  let ?t = "\<lfloor>(now - startTime s) / ?ms\<rfloor>"
  let ?spb = "subdivision (clockState s) div 4"
  have ms: "0 < ?ms" using millisecondsPerSubdivision_ge[of s] by simp
  have "0 \<le> (now - startTime s) / ?ms" using assms(3) ms by simp
  then have t: "0 \<le> ?t" by simp
  have spb: "0 < ?spb" using assms(1) by auto
  show B: "0 \<le> ?t div ?spb" using t spb by (simp add: pos_imp_zdiv_nonneg_iff)
  show "beat (pulseAt now s) = (?t div ?spb) mod beatsPerBar (clockState s) + 1"
    using B assms(2) by (simp add: pulseAt_def Let_def js_rem_nonneg)
  show "bar (pulseAt now s) = (?t div ?spb) div beatsPerBar (clockState s) + 1"
    using spb assms(2) by (simp add: pulseAt_def Let_def zdiv_zmult2_eq)
qed

subsection \<open>Scheduling\<close>

lemma nextPulseDelay_code:
  "nextPulseDelay now s =
     max 10 (millisecondsPerSubdivision s
             - js_fmod (now - lastPulseTime s) (millisecondsPerSubdivision s))"
  by (simp add: nextPulseDelay_def Let_def interval_not_small max_def)

lemma nextPulseDelay_ge: "10 \<le> nextPulseDelay now s"
  by (simp add: nextPulseDelay_code)

lemma scheduleNextPulse_running:
  assumes "isRunning (clockState s)"
  shows "scheduleNextPulse now s =
     s\<lparr>pendingTimeouts := pendingTimeouts s @ [(nextTimeoutId s, now + nextPulseDelay now s)],
       nextTimeoutId := Suc (nextTimeoutId s), intervalId := Some (nextTimeoutId s)\<rparr>"
  proof -
  have "0 \<le> nextPulseDelay now s" using nextPulseDelay_ge[of now s] by simp
  then show ?thesis using assms
    by (simp add: scheduleNextPulse_def clockSetTimeout_def max_def)
qed


text \<open>The clock right after it was started at time 0 with the default settings.\<close>

lemma start_from_init: "startInternalClock 0 0 clock_init =
  \<lparr>intervalId = Some 1, startTime = 0, pausedTime = 0, lastPulseTime = 0,
     clockState = \<lparr>isRunning = True, currentBeat = 1, currentBar = 1,
                    beatsPerBar = 4, subdivision = 16\<rparr>,
     lastPulse = None, currentBpm = 120, clockSource = Internal,
     pendingTimeouts = [(1, 125)], nextTimeoutId = 2, emitted = []\<rparr>"
  by code_simp

lemma interval_from_init: "millisecondsPerSubdivision (startInternalClock 0 0 clock_init) = 125"
  by (simp add: start_from_init millisecondsPerSubdivision_def millisecondsPerBeat_def)

subsection \<open>A run of the loop\<close>


section \<open>Claims about the clock\<close>



text \<open>
  C6 as stated fails. The clock started at 0 with the default settings (120 BPM,
  subdivision 16, so 125 ms per subdivision) fires 5 ms late, at 130. The
  specification's delay is \<open>max 5 (125 - 130 mod 125) = 120\<close>; the code schedules the
  next firing 125 ms later, at 255.
\<close>

theorem next_delay_counterexample:
  "nextPulseDelay 130 (generatePulse 130 (startInternalClock 0 0 clock_init)) = 125 \<and>
   spec_delay 130 (generatePulse 130 (startInternalClock 0 0 clock_init)) = 120 \<and>
   pendingTimeouts (fireTimeout 1 130 130 (startInternalClock 0 0 clock_init)) = [(2, 255)]"
  by code_simp

text \<open>
  C6, amended. \<open>scheduleNextPulse\<close> of a running clock arms one new timer, due
  \<open>max 10 (msPerSubdivision - ((now - lastPulseTime) % msPerSubdivision))\<close> after
  \<open>now\<close>: the remainder is taken of the time since the last pulse, not of the time
  since the start, and the floor is 10 ms.
\<close>

theorem scheduled_delay:
  assumes "isRunning (clockState s)"
  shows "pendingTimeouts (scheduleNextPulse now s) = pendingTimeouts s @
    [(nextTimeoutId s, now + max 10 (millisecondsPerSubdivision s -
        js_fmod (now - lastPulseTime s) (millisecondsPerSubdivision s)))]"
  using assms by (simp add: scheduleNextPulse_running nextPulseDelay_code)

theorem scheduled_delay_witness:
  "isRunning (clockState (startInternalClock 0 0 clock_init)) \<and>
   pendingTimeouts (scheduleNextPulse 120 (startInternalClock 0 0 clock_init)) =
     [(1, 125), (2, 130)]"
proof -
  have h: "isRunning (clockState (startInternalClock 0 0 clock_init))"
    by (simp add: start_from_init)
  have "js_fmod 120 125 = 120" by code_simp
  then show ?thesis
    using scheduled_delay[OF h, of 120] h
    by (simp add: interval_from_init) (simp add: start_from_init)
qed

text \<open>
  C8. \<open>setBeatsPerBar\<close> with a number below 1 or above 16 and \<open>setSubdivision\<close> with a
  number other than 4, 8, 16 and 32 return the service as it was.
\<close>

theorem invalid_setters_ignored:
  "(beats < 1 \<or> 16 < beats \<longrightarrow> setBeatsPerBar beats s = s) \<and>
   (sub \<notin> {4, 8, 16, 32} \<longrightarrow> setSubdivision now sub s = s)"
  by (simp add: setBeatsPerBar_def setSubdivision_def)

theorem invalid_setters_ignored_witness:
  "((0::int) < 1 \<or> 16 < (0::int)) \<and> setBeatsPerBar 0 clock_init = clock_init \<and>
   ((17::int) < 1 \<or> 16 < (17::int)) \<and> setBeatsPerBar 17 clock_init = clock_init \<and>
   (7::int) \<notin> {4, 8, 16, 32} \<and> setSubdivision 0 7 clock_init = clock_init"
  using invalid_setters_ignored[of 0 clock_init 7 0] invalid_setters_ignored[of 17 clock_init 7 0]
  by simp

text \<open>
  C9 as stated fails. With quarter-note pulses (\<open>setSubdivision 4\<close>) the clock started
  at 0 fires at 500 and stands on beat 2 of 4; \<open>setBeatsPerBar 1\<close> then leaves the
  current beat at 2 with one beat per bar.
\<close>

theorem beat_above_bar_counterexample:
  "currentBeat (clockState (setBeatsPerBar 1 (runClock [0]
     (startInternalClock 0 0 (setSubdivision 0 4 clock_init))))) = 2 \<and>
   beatsPerBar (clockState (setBeatsPerBar 1 (runClock [0]
     (startInternalClock 0 0 (setSubdivision 0 4 clock_init))))) = 1"
  by code_simp

text \<open>
  C9, amended. Right after a pulse is generated the current beat lies between 1 and
  \<open>beatsPerBar\<close> and the current bar is at least 1. When the next pulse is generated no
  more than one beat later, in a service with the same start time, tempo, subdivision
  and \<open>beatsPerBar\<close>, the bar either stays or grows by one, and it grows only when the
  beat is back at 1. \<open>setBeatsPerBar\<close> leaves the current beat and the current bar as
  they are.
\<close>

theorem beat_bounds_after_pulse:
  assumes "subdivision (clockState s) \<in> {4, 8, 16, 32}" "1 \<le> beatsPerBar (clockState s)"
    "startTime s \<le> now" "now \<le> now'"
    "now' - now \<le> of_int (subdivision (clockState s) div 4) * millisecondsPerSubdivision s"
    "startTime s' = startTime s" "currentBpm s' = currentBpm s"
    "subdivision (clockState s') = subdivision (clockState s)"
    "beatsPerBar (clockState s') = beatsPerBar (clockState s)"
  shows "1 \<le> currentBeat (clockState (generatePulse now s)) \<and>
         currentBeat (clockState (generatePulse now s)) \<le> beatsPerBar (clockState (generatePulse now s)) \<and>
         1 \<le> currentBar (clockState (generatePulse now s)) \<and>
         (currentBar (clockState (generatePulse now' s'))
            = currentBar (clockState (generatePulse now s)) \<or>
          currentBar (clockState (generatePulse now' s'))
            = currentBar (clockState (generatePulse now s)) + 1 \<and>
          currentBeat (clockState (generatePulse now' s')) = 1) \<and>
         currentBeat (clockState (setBeatsPerBar n s)) = currentBeat (clockState s) \<and>
         currentBar (clockState (setBeatsPerBar n s)) = currentBar (clockState s)"
proof -
  let ?ms = "millisecondsPerSubdivision s"
  let ?spb = "subdivision (clockState s) div 4"
  let ?bpb = "beatsPerBar (clockState s)"
  let ?B = "\<lfloor>(now - startTime s) / ?ms\<rfloor> div ?spb"
  let ?B' = "\<lfloor>(now' - startTime s) / ?ms\<rfloor> div ?spb"
  have ms: "0 < ?ms" using millisecondsPerSubdivision_ge[of s] by simp
  have spb: "0 < ?spb" using assms(1) by auto
  have bpb: "0 < ?bpb" using assms(2) by simp
  have ms1: "millisecondsPerSubdivision s' = ?ms"
    by (rule millisecondsPerSubdivision_cong) (simp_all add: assms(7,8))
  have v1: "subdivision (clockState s') \<in> {4, 8, 16, 32}" "1 \<le> beatsPerBar (clockState s')"
    "startTime s' \<le> now'"
    using assms by simp_all
  have b1: "currentBeat (clockState (generatePulse now s)) = ?B mod ?bpb + 1"
    and r1: "currentBar (clockState (generatePulse now s)) = ?B div ?bpb + 1" and B0: "0 \<le> ?B"
    using pulseAt_beats[OF assms(1,2,3)] by (simp_all add: generatePulse_position)
  have b2: "currentBeat (clockState (generatePulse now' s')) = ?B' mod ?bpb + 1"
    and r2: "currentBar (clockState (generatePulse now' s')) = ?B' div ?bpb + 1"
    using pulseAt_beats(1,2)[OF v1] by (simp_all add: generatePulse_position ms1 assms(6,8,9))
  have "now - startTime s \<le> now' - startTime s" using assms(4) by simp
  moreover have "(now' - startTime s) - (now - startTime s) \<le> of_int ?spb * ?ms"
    using assms(5) by simp
  ultimately have le: "?B \<le> ?B'" "?B' \<le> ?B + 1"
    using beats_step[OF ms spb] by blast+
  have range: "1 \<le> ?B mod ?bpb + 1" "?B mod ?bpb + 1 \<le> ?bpb" "1 \<le> ?B div ?bpb + 1"
    using bpb B0 pos_mod_bound[OF bpb, of ?B] pos_mod_sign[OF bpb, of ?B]
    by (simp_all add: pos_imp_zdiv_nonneg_iff)
  have step: "?B' div ?bpb = ?B div ?bpb \<or> (?B' div ?bpb = ?B div ?bpb + 1 \<and> ?B' mod ?bpb = 0)"
  proof (cases "?B' = ?B")
    case True
    then show ?thesis by simp
  next
    case False
    then have "?B' = ?B + 1" using le by linarith
    then show ?thesis using div_step[OF bpb, of ?B] by simp
  qed
  have keep: "currentBeat (clockState (setBeatsPerBar n s)) = currentBeat (clockState s)"
    "currentBar (clockState (setBeatsPerBar n s)) = currentBar (clockState s)"
    by (simp_all add: setBeatsPerBar_def)
  show ?thesis
    using range step keep by (auto simp add: b1 r1 b2 r2 generatePulse_keeps)
qed

theorem beat_bounds_after_pulse_witness:
  "subdivision (clockState (startInternalClock 0 0 clock_init)) \<in> {4, 8, 16, 32} \<and>
   1 \<le> beatsPerBar (clockState (startInternalClock 0 0 clock_init)) \<and>
   startTime (startInternalClock 0 0 clock_init) \<le> 1875 \<and> (1875::rat) \<le> 2000 \<and>
   2000 - 1875 \<le> of_int (subdivision (clockState (startInternalClock 0 0 clock_init)) div 4) *
     millisecondsPerSubdivision (startInternalClock 0 0 clock_init) \<and>
   startTime (generatePulse 1875 (startInternalClock 0 0 clock_init)) =
     startTime (startInternalClock 0 0 clock_init) \<and>
   currentBpm (generatePulse 1875 (startInternalClock 0 0 clock_init)) =
     currentBpm (startInternalClock 0 0 clock_init) \<and>
   subdivision (clockState (generatePulse 1875 (startInternalClock 0 0 clock_init))) =
     subdivision (clockState (startInternalClock 0 0 clock_init)) \<and>
   beatsPerBar (clockState (generatePulse 1875 (startInternalClock 0 0 clock_init))) =
     beatsPerBar (clockState (startInternalClock 0 0 clock_init)) \<and>
   currentBar (clockState (generatePulse 2000 (generatePulse 1875
     (startInternalClock 0 0 clock_init)))) =
   currentBar (clockState (generatePulse 1875 (startInternalClock 0 0 clock_init))) + 1 \<and>
   currentBeat (clockState (generatePulse 2000 (generatePulse 1875
     (startInternalClock 0 0 clock_init)))) = 1 \<and>
   currentBeat (clockState (setBeatsPerBar 3 (startInternalClock 0 0 clock_init))) =
     currentBeat (clockState (startInternalClock 0 0 clock_init))"
proof -
  have h1: "subdivision (clockState (startInternalClock 0 0 clock_init)) \<in> {4, 8, 16, 32}"
    by (simp add: start_from_init)
  have h2: "1 \<le> beatsPerBar (clockState (startInternalClock 0 0 clock_init))"
    by (simp add: start_from_init)
  have h3: "startTime (startInternalClock 0 0 clock_init) \<le> 1875"
    by (simp add: start_from_init)
  have h4: "(1875::rat) \<le> 2000" by simp
  have h5: "2000 - 1875 \<le>
      of_int (subdivision (clockState (startInternalClock 0 0 clock_init)) div 4) *
      millisecondsPerSubdivision (startInternalClock 0 0 clock_init)"
    by (simp add: interval_from_init) (simp add: start_from_init)
  have h6: "startTime (generatePulse 1875 (startInternalClock 0 0 clock_init)) =
      startTime (startInternalClock 0 0 clock_init)"
    and h7: "currentBpm (generatePulse 1875 (startInternalClock 0 0 clock_init)) =
      currentBpm (startInternalClock 0 0 clock_init)"
    and h8: "subdivision (clockState (generatePulse 1875 (startInternalClock 0 0 clock_init))) =
      subdivision (clockState (startInternalClock 0 0 clock_init))"
    and h9: "beatsPerBar (clockState (generatePulse 1875 (startInternalClock 0 0 clock_init))) =
      beatsPerBar (clockState (startInternalClock 0 0 clock_init))"
    by (simp_all only: generatePulse_keeps)
  have b1: "currentBar (clockState (generatePulse 1875 (startInternalClock 0 0 clock_init))) = 1"
    by (simp add: generatePulse_position pulseAt_def interval_from_init)
       (simp add: start_from_init)
  have b2: "currentBar (clockState (generatePulse 2000 (generatePulse 1875
      (startInternalClock 0 0 clock_init)))) = 2"
    by (simp add: generatePulse_position pulseAt_def generatePulse_keeps interval_from_init
          millisecondsPerSubdivision_cong[of "generatePulse 1875 (startInternalClock 0 0 clock_init)"
            "startInternalClock 0 0 clock_init"])
       (simp add: start_from_init)
  show ?thesis
    using beat_bounds_after_pulse[OF h1 h2 h3 h4 h5 h6 h7 h8 h9, of 3] h1 h2 h3 h4 h5 h6 h7 h8 h9 b1 b2
    by simp
qed

section \<open>Properties of the MIDI service\<close>

subsection \<open>The event loop\<close>

declare advance.simps [simp del]

lemma runTimerAction_performanceNow: "performanceNow (runTimerAction act m) = performanceNow m"
  by (cases act) (simp_all add: sendNoteOff_def outputSend_def Let_def)

lemma advance_empty:
  "timers m = [] \<Longrightarrow> advance T m = m\<lparr>performanceNow := max (performanceNow m) T\<rparr>"
  by (subst advance.simps) (simp add: nextDue_def)

lemma advance_single_later:
  "timers m = [(tid, due, act)] \<Longrightarrow> T < due \<Longrightarrow>
   advance T m = m\<lparr>performanceNow := max (performanceNow m) T\<rparr>"
  by (subst advance.simps) (simp add: nextDue_def)

lemma advance_single_due:
  assumes "timers m = [(tid, due, act)]" "due \<le> T"
  shows "advance T m =
     (runTimerAction act (m\<lparr>timers := [], performanceNow := max (performanceNow m) due\<rparr>))
       \<lparr>performanceNow := max (max (performanceNow m) due) T\<rparr>"
proof -
  let ?m' = "runTimerAction act (m\<lparr>timers := [], performanceNow := max (performanceNow m) due\<rparr>)"
  have "advance T m = advance T ?m'"
    using assms by (subst advance.simps) (simp add: nextDue_def)
  also have "\<dots> = ?m'\<lparr>performanceNow := max (performanceNow ?m') T\<rparr>"
    by (rule advance_empty) (simp add: runTimerAction_timers)
  finally show ?thesis by (simp add: runTimerAction_performanceNow)
qed

lemma earliest_None: "earliest ts = None \<Longrightarrow> ts = []"
  by (cases ts) (auto split: option.splits if_splits)

lemma earliest_least: "earliest ts = Some e \<Longrightarrow> t \<in> set ts \<Longrightarrow> fst (snd e) \<le> fst (snd t)"
  by (induction ts arbitrary: e) (auto split: option.splits if_splits dest: earliest_None)

lemma nextDue_None: "nextDue T m = None \<Longrightarrow> t \<in> set (timers m) \<Longrightarrow> T < fst (snd t)"
  by (auto simp: nextDue_def split: option.splits if_splits
      dest: earliest_None earliest_least)

lemma nextDue_mem: "nextDue T m = Some t \<Longrightarrow> t \<in> set (timers m)"
  by (auto simp: nextDue_def split: option.splits if_splits dest: earliest_mem)

lemma runTimerAction_clock_fields:
  "clockTimes (runTimerAction act m) = clockTimes m"
  "lastClockTime (runTimerAction act m) = lastClockTime m"
  by (cases act; simp add: sendNoteOff_def outputSend_def Let_def)+

lemma advance_clock_fields:
  "clockTimes (advance T m) = clockTimes m \<and> lastClockTime (advance T m) = lastClockTime m"
proof (induction T m rule: advance.induct)
  case (1 T m)
  show ?case
  proof (cases "nextDue T m")
    case None
    then show ?thesis by (subst (1 2) advance.simps) simp
  next
    case (Some t)
    obtain tid due act where t: "t = (tid, due, act)" by (cases t)
    show ?thesis
      using "1.IH"[OF Some[unfolded t] refl refl]
      by (subst (1 2) advance.simps) (simp add: Some t runTimerAction_clock_fields)
  qed
qed

lemma advance_performanceNow: "performanceNow (advance T m) = max (performanceNow m) T"
proof (induction T m rule: advance.induct)
  case (1 T m)
  show ?case
  proof (cases "nextDue T m")
    case None
    then show ?thesis by (subst advance.simps) simp
  next
    case (Some t)
    obtain tid due act where t: "t = (tid, due, act)" by (cases t)
    have "due \<le> T" using Some t by (auto simp: nextDue_def split: option.splits if_splits)
    then show ?thesis
      using "1.IH"[OF Some[unfolded t] refl refl]
      by (subst advance.simps) (simp add: Some t runTimerAction_performanceNow max_def)
  qed
qed

lemma runTimerAction_stays_off:
  "\<not> isReceivingClock m \<Longrightarrow> detectedBPM m = Finite 0 \<Longrightarrow>
   \<not> isReceivingClock (runTimerAction act m) \<and> detectedBPM (runTimerAction act m) = Finite 0"
  by (cases act) (simp_all add: sendNoteOff_def outputSend_def Let_def)

lemma advance_stays_off:
  "\<not> isReceivingClock m \<Longrightarrow> detectedBPM m = Finite 0 \<Longrightarrow>
   \<not> isReceivingClock (advance T m) \<and> detectedBPM (advance T m) = Finite 0"
proof (induction T m rule: advance.induct)
  case (1 T m)
  show ?case
  proof (cases "nextDue T m")
    case None
    then show ?thesis using "1.prems" by (subst (1 2) advance.simps) simp
  next
    case (Some t)
    obtain tid due act where t: "t = (tid, due, act)" by (cases t)
    let ?m' = "m\<lparr>timers := filter (\<lambda>t. fst t \<noteq> tid) (timers m),
                  performanceNow := max (performanceNow m) due\<rparr>"
    have "\<not> isReceivingClock (runTimerAction act ?m') \<and>
          detectedBPM (runTimerAction act ?m') = Finite 0"
      using "1.prems" by (intro runTimerAction_stays_off) simp_all
    then show ?thesis
      using "1.IH"[OF Some[unfolded t] refl refl]
      by (subst (1 2) advance.simps) (simp add: Some t)
  qed
qed

lemma advance_watchdog_fires:
  assumes "(w, due, ClockWatchdog) \<in> set (timers m)" "due \<le> T"
    "\<forall>u\<in>set (timers m). fst u = w \<longrightarrow> u = (w, due, ClockWatchdog)"
  shows "\<not> isReceivingClock (advance T m) \<and> detectedBPM (advance T m) = Finite 0"
  using assms
proof (induction T m rule: advance.induct)
  case (1 T m)
  show ?case
  proof (cases "nextDue T m")
    case None
    then have "T < due" using nextDue_None[OF None "1.prems"(1)] by simp
    then show ?thesis using "1.prems"(2) by simp
  next
    case (Some t)
    obtain tid d' act where t: "t = (tid, d', act)" by (cases t)
    let ?m' = "m\<lparr>timers := filter (\<lambda>t. fst t \<noteq> tid) (timers m),
                  performanceNow := max (performanceNow m) d'\<rparr>"
    have mem: "(tid, d', act) \<in> set (timers m)" using nextDue_mem[OF Some] t by simp
    have unf: "advance T m = advance T (runTimerAction act ?m')"
      by (subst advance.simps) (simp add: Some t)
    show ?thesis
    proof (cases "tid = w")
      case True
      then have "act = ClockWatchdog" using "1.prems"(3) mem by auto
      then have "\<not> isReceivingClock (runTimerAction act ?m') \<and>
                 detectedBPM (runTimerAction act ?m') = Finite 0" by simp
      then show ?thesis unfolding unf by (intro advance_stays_off) simp_all
    next
      case False
      have "\<not> isReceivingClock (advance T (runTimerAction act ?m')) \<and>
            detectedBPM (advance T (runTimerAction act ?m')) = Finite 0"
      proof (rule "1.IH"[OF Some[unfolded t] refl refl])
        show "(w, due, ClockWatchdog) \<in> set (timers (runTimerAction act ?m'))"
          using "1.prems"(1) False by (simp add: runTimerAction_timers)
        show "due \<le> T" by (rule "1.prems"(2))
        show "\<forall>u\<in>set (timers (runTimerAction act ?m')). fst u = w \<longrightarrow> u = (w, due, ClockWatchdog)"
          using "1.prems"(3) by (simp add: runTimerAction_timers)
      qed
      then show ?thesis unfolding unf .
    qed
  qed
qed

subsection \<open>playNote\<close>

lemma playNote_idle:
  assumes "hasOutput m" "timers m = []"
  shows "playNote n v c d m =
    m\<lparr>sent := sent m @ [(performanceNow m, [0x90 + c, n, v])],
      timers := [(nextTimerId m, performanceNow m + max 0 d, NoteOffTimer n c)],
      nextTimerId := Suc (nextTimerId m),
      noteOffTimeouts := (noteOffTimeouts m)((c, n) \<mapsto> nextTimerId m)\<rparr>"
  using assms
  by (simp add: playNote_def sendNoteOn_def outputSend_def midiSetTimeout_def
      midiClearTimeout_def Let_def split: option.splits)

lemma playNote_retrigger:
  assumes "hasOutput m" "timers m = [(tid, due, act)]" "noteOffTimeouts m (c, n) = Some tid"
    "tid \<noteq> 0"
  shows "playNote n v c d m =
    m\<lparr>sent := sent m @ [(performanceNow m, [0x90 + c, n, v])],
      timers := [(nextTimerId m, performanceNow m + max 0 d, NoteOffTimer n c)],
      nextTimerId := Suc (nextTimerId m),
      noteOffTimeouts := (noteOffTimeouts m)((c, n) \<mapsto> nextTimerId m)\<rparr>"
  using assms
  by (simp add: playNote_def sendNoteOn_def outputSend_def midiSetTimeout_def
      midiClearTimeout_def Let_def)

lemma retrigger_sent:
  assumes "hasOutput m" "timers m = []" "performanceNow m = 0" "0 < nextTimerId m"
  shows "sent (advance T (playNote n v c 100 (advance 50 (playNote n v c 100 m)))) =
     sent m @ [(0, [0x90 + c, n, v]), (50, [0x90 + c, n, v])] @
     (if 150 \<le> T then [(150, [0x80 + c, n, 0])] else [])"
proof -
  let ?k = "nextTimerId m"
  let ?M1 = "m\<lparr>sent := sent m @ [(0, [0x90 + c, n, v])],
      timers := [(?k, 100, NoteOffTimer n c)], nextTimerId := Suc ?k,
      noteOffTimeouts := (noteOffTimeouts m)((c, n) \<mapsto> ?k)\<rparr>"
  let ?M2 = "?M1\<lparr>performanceNow := 50\<rparr>"
  let ?M3 = "?M2\<lparr>sent := sent m @ [(0, [0x90 + c, n, v]), (50, [0x90 + c, n, v])],
      timers := [(Suc ?k, 150, NoteOffTimer n c)], nextTimerId := Suc (Suc ?k),
      noteOffTimeouts := (noteOffTimeouts m)((c, n) \<mapsto> Suc ?k)\<rparr>"
  have m1: "playNote n v c 100 m = ?M1"
    using playNote_idle[OF assms(1,2), of n v c 100] assms(3) by simp
  have m2: "advance 50 ?M1 = ?M2"
    using advance_single_later[of ?M1 ?k 100 "NoteOffTimer n c" 50] assms(3) by simp
  have m3: "playNote n v c 100 ?M2 = ?M3"
    using playNote_retrigger[of ?M2 ?k 100 "NoteOffTimer n c" c n v 100] assms(1,4) by simp
  have t3: "timers ?M3 = [(Suc ?k, 150, NoteOffTimer n c)]" by simp
  have out: "sent (advance T ?M3) =
     sent m @ [(0, [0x90 + c, n, v]), (50, [0x90 + c, n, v])] @
     (if 150 \<le> T then [(150, [0x80 + c, n, 0])] else [])"
  proof (cases "150 \<le> T")
    case True
    show ?thesis
      using True assms(1)
      by (subst advance_single_due[OF t3 True])
         (simp add: sendNoteOff_def outputSend_def Let_def)
  next
    case False
    then have "T < 150" by simp
    then show ?thesis using False by (subst advance_single_later[OF t3]) simp_all
  qed
  show ?thesis by (simp only: m1 m2 m3 out)
qed

lemma playNote_cancels:
  assumes "noteOffTimeouts m (c, n) = Some tid" "tid \<noteq> 0" "tid \<noteq> nextTimerId m"
  shows "tid \<notin> fst ` set (timers (playNote n v c d m))"
    and "noteOffTimeouts (playNote n v c d m) (c, n) = Some (nextTimerId m)"
    and "(nextTimerId m, performanceNow m + max 0 d, NoteOffTimer n c)
           \<in> set (timers (playNote n v c d m))"
  using assms
  by (auto simp add: playNote_def sendNoteOn_def outputSend_def midiSetTimeout_def
      midiClearTimeout_def Let_def)

lemma play_then_advance_sent:
  assumes "hasOutput m" "timers m = []" "0 \<le> d"
  shows "sent (advance T (playNote n v c d m)) =
     sent m @ [(performanceNow m, [0x90 + c, n, v])] @
     (if performanceNow m + d \<le> T then [(performanceNow m + d, [0x80 + c, n, 0])] else [])"
proof -
  let ?M1 = "m\<lparr>sent := sent m @ [(performanceNow m, [0x90 + c, n, v])],
      timers := [(nextTimerId m, performanceNow m + d, NoteOffTimer n c)],
      nextTimerId := Suc (nextTimerId m),
      noteOffTimeouts := (noteOffTimeouts m)((c, n) \<mapsto> nextTimerId m)\<rparr>"
  have m1: "playNote n v c d m = ?M1"
    using playNote_idle[OF assms(1,2), of n v c d] assms(3) by (simp add: max_def)
  have t1: "timers ?M1 = [(nextTimerId m, performanceNow m + d, NoteOffTimer n c)]" by simp
  have "sent (advance T ?M1) =
     sent m @ [(performanceNow m, [0x90 + c, n, v])] @
     (if performanceNow m + d \<le> T then [(performanceNow m + d, [0x80 + c, n, 0])] else [])"
  proof (cases "performanceNow m + d \<le> T")
    case True
    show ?thesis
      using True assms(1,3)
      by (subst advance_single_due[OF t1 True])
         (simp add: sendNoteOff_def outputSend_def Let_def max_def)
  next
    case False
    then have "T < performanceNow m + d" by simp
    then show ?thesis using False by (subst advance_single_later[OF t1]) simp_all
  qed
  then show ?thesis by (simp only: m1)
qed

subsection \<open>Clock ticks\<close>

lemma handleMidiClock_timers:
  "\<exists>ts. timers (handleMidiClock m) =
          ts @ [(nextTimerId m, performanceNow m + 2000, ClockWatchdog)] \<and>
        set ts \<subseteq> set (timers m)"
  by (auto simp add: handleMidiClock_def onQuarterNote_def midiSetTimeout_def
      midiClearTimeout_def Let_def split: option.splits)

lemma handleMidiClock_lastClockTime: "lastClockTime (handleMidiClock m) = performanceNow m"
  by (simp add: handleMidiClock_def onQuarterNote_def midiSetTimeout_def
      midiClearTimeout_def Let_def split: option.splits)

lemma handleMidiClock_receiving: "isReceivingClock (handleMidiClock m)"
  by (simp add: handleMidiClock_def onQuarterNote_def midiSetTimeout_def
      midiClearTimeout_def Let_def split: option.splits)

lemma handleMidiClock_stale:
  "0 < lastClockTime m \<Longrightarrow> clockTimes (handleMidiClock m) \<noteq> []"
  by (cases "clockTimes m")
     (simp_all add: handleMidiClock_def onQuarterNote_def midiSetTimeout_def
      midiClearTimeout_def Let_def split: option.splits)

lemma handleMidiClock_performanceNow: "performanceNow (handleMidiClock m) = performanceNow m"
  by (simp add: handleMidiClock_def onQuarterNote_def midiSetTimeout_def
      midiClearTimeout_def Let_def split: option.splits)

lemma handleMidiClock_clockTimes:
  "clockTimes (handleMidiClock m) =
     (if 0 < lastClockTime m then
        (if 24 < length (clockTimes m @ [performanceNow m - lastClockTime m])
         then tl (clockTimes m @ [performanceNow m - lastClockTime m])
         else clockTimes m @ [performanceNow m - lastClockTime m])
      else clockTimes m)"
  by (simp add: handleMidiClock_def onQuarterNote_def midiSetTimeout_def
      midiClearTimeout_def Let_def split: option.splits)

lemma handleMidiClock_detectedBPM:
  "detectedBPM (handleMidiClock m) =
     (if 0 < lastClockTime m \<and> 24 \<le> length (clockTimes (handleMidiClock m))
      then estimateBpm (clockTimes (handleMidiClock m)) else detectedBPM m)"
  by (simp add: handleMidiClock_def onQuarterNote_def midiSetTimeout_def
      midiClearTimeout_def Let_def split: option.splits)

lemma handleMidiClock_single_timer:
  assumes "timers m = [(tid, due, act)]" "clockTimeout m = Some tid" "tid \<noteq> 0"
  shows "timers (handleMidiClock m) = [(nextTimerId m, performanceNow m + 2000, ClockWatchdog)]"
    and "clockTimeout (handleMidiClock m) = Some (nextTimerId m)"
    and "nextTimerId (handleMidiClock m) = Suc (nextTimerId m)"
  using assms
  by (simp_all add: handleMidiClock_def onQuarterNote_def midiSetTimeout_def
      midiClearTimeout_def Let_def)

lemma handleMidiClock_first_timer:
  assumes "timers m = []" "clockTimeout m = None"
  shows "timers (handleMidiClock m) = [(nextTimerId m, performanceNow m + 2000, ClockWatchdog)]"
    and "clockTimeout (handleMidiClock m) = Some (nextTimerId m)"
    and "nextTimerId (handleMidiClock m) = Suc (nextTimerId m)"
  using assms
  by (simp_all add: handleMidiClock_def onQuarterNote_def midiSetTimeout_def
      midiClearTimeout_def Let_def)

lemma feedClock_append: "feedClock (ts @ [t]) m = handleMidiClock (advance t (feedClock ts m))"
  by (induction ts arbitrary: m) simp_all

lemma uniformTicks_Suc: "uniformTicks t0 d (Suc k) = uniformTicks t0 d k @ [t0 + of_nat k * d]"
  by (simp add: uniformTicks_def)

lemma estimateBpm_uniform:
  assumes "0 < d"
  shows "estimateBpm (replicate 24 d) = Finite \<lfloor>2500 / d + 1 / 2\<rfloor>"
proof -
  have "sum_list (replicate 24 d) = 24 * d" by (simp add: sum_list_replicate)
  then show ?thesis using assms by (simp add: estimateBpm_def Let_def)
qed

lemma feed_uniform:
  assumes "0 < t0" "0 < d" "d < 2000"
  shows "lastClockTime (feedClock (uniformTicks t0 d (Suc k)) midi_init) = t0 + of_nat k * d \<and>
     performanceNow (feedClock (uniformTicks t0 d (Suc k)) midi_init) = t0 + of_nat k * d \<and>
     clockTimes (feedClock (uniformTicks t0 d (Suc k)) midi_init) = replicate (min k 24) d \<and>
     timers (feedClock (uniformTicks t0 d (Suc k)) midi_init) =
       [(Suc k, t0 + of_nat k * d + 2000, ClockWatchdog)] \<and>
     clockTimeout (feedClock (uniformTicks t0 d (Suc k)) midi_init) = Some (Suc k) \<and>
     nextTimerId (feedClock (uniformTicks t0 d (Suc k)) midi_init) = Suc (Suc k) \<and>
     detectedBPM (feedClock (uniformTicks t0 d (Suc k)) midi_init) =
       (if 24 \<le> k then Finite \<lfloor>2500 / d + 1 / 2\<rfloor> else Finite 0)"
proof (induction k)
  case 0
  let ?a = "advance t0 midi_init"
  have a: "timers ?a = []" "clockTimeout ?a = None" "nextTimerId ?a = 1"
    "performanceNow ?a = t0" "lastClockTime ?a = 0" "clockTimes ?a = []" "detectedBPM ?a = Finite 0"
    using assms(1) by (simp_all add: advance_empty midi_init_def max_def)
  have f: "feedClock (uniformTicks t0 d (Suc 0)) midi_init = handleMidiClock ?a"
    by (simp add: uniformTicks_def)
  show ?case
    unfolding f
    by (simp add: handleMidiClock_lastClockTime handleMidiClock_performanceNow
        handleMidiClock_clockTimes handleMidiClock_detectedBPM
        handleMidiClock_first_timer[OF a(1,2)] a)
next
  case (Suc k)
  let ?m = "feedClock (uniformTicks t0 d (Suc k)) midi_init"
  define t where "t = t0 + of_nat (Suc k) * d"
  define a where "a = advance t ?m"
  have IH: "lastClockTime ?m = t0 + of_nat k * d" "performanceNow ?m = t0 + of_nat k * d"
    "clockTimes ?m = replicate (min k 24) d"
    "timers ?m = [(Suc k, t0 + of_nat k * d + 2000, ClockWatchdog)]"
    "clockTimeout ?m = Some (Suc k)" "nextTimerId ?m = Suc (Suc k)"
    "detectedBPM ?m = (if 24 \<le> k then Finite \<lfloor>2500 / d + 1 / 2\<rfloor> else Finite 0)"
    using Suc.IH by simp_all
  have lt: "t < t0 + of_nat k * d + 2000" using assms(3) by (simp add: t_def algebra_simps)
  have adv: "a = ?m\<lparr>performanceNow := max (performanceNow ?m) t\<rparr>"
    unfolding a_def by (rule advance_single_later[OF IH(4) lt])
  have mx: "max (performanceNow ?m) t = t"
    using assms(2) by (simp add: IH(2) t_def max_def algebra_simps)
  have a: "timers a = [(Suc k, t0 + of_nat k * d + 2000, ClockWatchdog)]"
    "clockTimeout a = Some (Suc k)" "nextTimerId a = Suc (Suc k)"
    "performanceNow a = t" "lastClockTime a = t0 + of_nat k * d"
    "clockTimes a = replicate (min k 24) d"
    "detectedBPM a = (if 24 \<le> k then Finite \<lfloor>2500 / d + 1 / 2\<rfloor> else Finite 0)"
    unfolding adv mx by (simp_all add: IH)
  have pos: "0 < lastClockTime a" using assms(1,2) by (simp add: a(5) add_pos_nonneg)
  have diff: "performanceNow a - lastClockTime a = d" by (simp add: a(4,5) t_def algebra_simps)
  have f: "feedClock (uniformTicks t0 d (Suc (Suc k))) midi_init = handleMidiClock a"
    unfolding a_def t_def by (subst uniformTicks_Suc) (simp only: feedClock_append)
  have ct: "clockTimes (handleMidiClock a) = replicate (min (Suc k) 24) d"
  proof (cases "24 \<le> k")
    case True
    then have "min k 24 = 24" "min (Suc k) 24 = 24" by simp_all
    moreover have "tl (replicate 24 d @ [d]) = replicate 24 d"
      by (simp add: replicate_append_same[symmetric] del: replicate.simps)
         (simp add: numeral_eq_Suc)
    ultimately show ?thesis
      using pos by (simp add: handleMidiClock_clockTimes a(6) diff)
  next
    case False
    then have "min k 24 = k" "min (Suc k) 24 = Suc k" by simp_all
    then show ?thesis
      using pos False by (simp add: handleMidiClock_clockTimes a(6) diff replicate_append_same)
  qed
  have bpm: "detectedBPM (handleMidiClock a) =
      (if 24 \<le> Suc k then Finite \<lfloor>2500 / d + 1 / 2\<rfloor> else Finite 0)"
  proof (cases "23 \<le> k")
    case True
    then have "min (Suc k) 24 = 24" by simp
    then show ?thesis
      using pos True by (simp add: handleMidiClock_detectedBPM ct estimateBpm_uniform[OF assms(2)])
  next
    case False
    then have "min (Suc k) 24 = Suc k" by simp
    then show ?thesis
      using pos False by (simp add: handleMidiClock_detectedBPM ct a(7))
  qed
  have tm: "timers (handleMidiClock a) = [(Suc (Suc k), t + 2000, ClockWatchdog)]"
    "clockTimeout (handleMidiClock a) = Some (Suc (Suc k))"
    "nextTimerId (handleMidiClock a) = Suc (Suc (Suc k))"
    using handleMidiClock_single_timer[OF a(1,2)] by (simp_all add: a(3,4))
  show ?case
    unfolding f
    by (simp only: handleMidiClock_lastClockTime handleMidiClock_performanceNow ct bpm tm a(4))
       (simp add: t_def)
qed









subsection \<open>Registries and playback\<close>

lemma delete_keeps_midi:
  "midi (noteDelete x a) = midi a" "midi (removeNoteConfig dateNow i a) = midi a"
  by (simp_all add: noteDelete_def deleteNoteById_def removeNoteConfig_def)

lemma playNote_windowEvents: "windowEvents (playNote n v c d m) = windowEvents m"
  by (simp add: playNote_def sendNoteOn_def outputSend_def midiSetTimeout_def
      midiClearTimeout_def Let_def split: option.splits)

lemma sendControlChange_windowEvents: "windowEvents (sendControlChange k v c m) = windowEvents m"
  by (simp add: sendControlChange_def outputSend_def)

lemma foldl_playNote_windowEvents:
  "windowEvents (foldl (\<lambda>m config. playNote (noteNumber config) (velocity config)
      (noteChannel config) 100 m) m cs) = windowEvents m"
  by (induction cs arbitrary: m) (simp_all add: playNote_windowEvents)

lemma foldl_control_windowEvents:
  "windowEvents (foldl (\<lambda>m config. sendControlChange (controller config) (controlValue config)
      (controlChannel config) m) m cs) = windowEvents m"
  by (induction cs arbitrary: m) (simp_all add: sendControlChange_windowEvents)

lemma triggerPlayback_windowEvents:
  "windowEvents (midi (triggerPlayback dateNow a)) = windowEvents (midi a) @
     [PlaybackTrigger dateNow (length (filter noteEnabled (noteConfigs a)))
        (length (filter controlEnabled (controlConfigs a)))]"
  by (simp add: triggerPlayback_def Let_def foldl_playNote_windowEvents
      foldl_control_windowEvents)

lemma gate:
  assumes "lastPulse c = Some p" "clockSource c = Internal" "isRunning (clockState c)"
    "isPlaying (playbackState a)" "isEnabled (playbackState a)"
  shows "clockPulseEffect dateNow c a =
     (if (pulseSubdivision p - 1) mod max 1 (subdivision (clockState c) div 4) = 0
      then triggerPlayback dateNow a else a)"
proof -
  have "0 < max 1 (subdivision (clockState c) div 4)" by simp
  then show ?thesis
    using assms by (simp add: clockPulseEffect_def Let_def js_rem_eq_0_iff del: max_less_iff_conj)
qed

lemma dispatched_iff:
  assumes "lastPulse c = Some p" "clockSource c = Internal" "isRunning (clockState c)"
    "isPlaying (playbackState a)" "isEnabled (playbackState a)"
  shows "dispatched dateNow c a \<longleftrightarrow>
     (pulseSubdivision p - 1) mod max 1 (subdivision (clockState c) div 4) = 0"
  by (simp add: dispatched_def gate[OF assms] triggerPlayback_windowEvents)

lemma playNote_sent:
  "sent (playNote n v c d m) =
     sent m @ (if hasOutput m then [(performanceNow m, [0x90 + c, n, v])] else [])"
  "hasOutput (playNote n v c d m) = hasOutput m"
  "performanceNow (playNote n v c d m) = performanceNow m"
  by (simp_all add: playNote_def sendNoteOn_def outputSend_def midiSetTimeout_def
      midiClearTimeout_def Let_def split: option.splits)

lemma sendControlChange_fields:
  "sent (sendControlChange k v c m) =
     sent m @ (if hasOutput m then [(performanceNow m, [0xB0 + c, k, v])] else [])"
  "hasOutput (sendControlChange k v c m) = hasOutput m"
  "performanceNow (sendControlChange k v c m) = performanceNow m"
  "timers (sendControlChange k v c m) = timers m"
  by (simp_all add: sendControlChange_def outputSend_def)

lemma foldl_playNote_sent:
  "hasOutput m \<Longrightarrow>
   sent (foldl (\<lambda>m config. playNote (noteNumber config) (velocity config)
      (noteChannel config) 100 m) m cs) =
     sent m @ map (\<lambda>config. (performanceNow m,
        [0x90 + noteChannel config, noteNumber config, velocity config])) cs \<and>
   hasOutput (foldl (\<lambda>m config. playNote (noteNumber config) (velocity config)
      (noteChannel config) 100 m) m cs) \<and>
   performanceNow (foldl (\<lambda>m config. playNote (noteNumber config) (velocity config)
      (noteChannel config) 100 m) m cs) = performanceNow m"
  by (induction cs arbitrary: m) (simp_all add: playNote_sent)

lemma foldl_control_sent:
  "hasOutput m \<Longrightarrow>
   sent (foldl (\<lambda>m config. sendControlChange (controller config) (controlValue config)
      (controlChannel config) m) m cs) =
     sent m @ map (\<lambda>config. (performanceNow m,
        [0xB0 + controlChannel config, controller config, controlValue config])) cs"
  by (induction cs arbitrary: m) (simp_all add: sendControlChange_fields)

lemma foldl_control_timers:
  "timers (foldl (\<lambda>m config. sendControlChange (controller config) (controlValue config)
      (controlChannel config) m) m cs) = timers m"
  by (induction cs arbitrary: m) (simp_all add: sendControlChange_fields)

lemma playNote_free_key:
  assumes "noteOffTimeouts m (c, n) = None"
  shows "timers (playNote n v c d m) =
           timers m @ [(nextTimerId m, performanceNow m + max 0 d, NoteOffTimer n c)]"
    and "nextTimerId (playNote n v c d m) = Suc (nextTimerId m)"
    and "noteOffTimeouts (playNote n v c d m) = (noteOffTimeouts m)((c, n) \<mapsto> nextTimerId m)"
  using assms
  by (simp_all add: playNote_def sendNoteOn_def outputSend_def midiSetTimeout_def Let_def)

lemma foldl_playNote_timers:
  assumes "\<forall>config\<in>set cs. noteOffTimeouts m (noteChannel config, noteNumber config) = None"
    "distinct (map (\<lambda>config. (noteChannel config, noteNumber config)) cs)"
  shows "timers (foldl (\<lambda>m config. playNote (noteNumber config) (velocity config)
      (noteChannel config) 100 m) m cs) =
     timers m @ map (\<lambda>(i, config). (i, performanceNow m + 100,
        NoteOffTimer (noteNumber config) (noteChannel config)))
       (zip [nextTimerId m ..< nextTimerId m + length cs] cs)"
  using assms
proof (induction cs arbitrary: m)
  case Nil
  then show ?case by simp
next
  case (Cons x cs)
  let ?m1 = "playNote (noteNumber x) (velocity x) (noteChannel x) 100 m"
  have free: "noteOffTimeouts m (noteChannel x, noteNumber x) = None" using Cons.prems(1) by simp
  have m1: "timers ?m1 = timers m @ [(nextTimerId m, performanceNow m + 100,
        NoteOffTimer (noteNumber x) (noteChannel x))]"
    "nextTimerId ?m1 = Suc (nextTimerId m)"
    "noteOffTimeouts ?m1 = (noteOffTimeouts m)((noteChannel x, noteNumber x) \<mapsto> nextTimerId m)"
    "performanceNow ?m1 = performanceNow m"
    using playNote_free_key[OF free, of "velocity x" 100] by (simp_all add: playNote_sent)
  have IH: "timers (foldl (\<lambda>m config. playNote (noteNumber config) (velocity config)
      (noteChannel config) 100 m) ?m1 cs) =
     timers ?m1 @ map (\<lambda>(i, config). (i, performanceNow ?m1 + 100,
        NoteOffTimer (noteNumber config) (noteChannel config)))
       (zip [nextTimerId ?m1 ..< nextTimerId ?m1 + length cs] cs)"
  proof (rule Cons.IH)
    show "\<forall>config\<in>set cs. noteOffTimeouts ?m1 (noteChannel config, noteNumber config) = None"
    proof
      fix config assume c: "config \<in> set cs"
      have "(noteChannel x, noteNumber x) \<noteq> (noteChannel config, noteNumber config)"
        using Cons.prems(2) c by (auto simp: image_iff)
      then show "noteOffTimeouts ?m1 (noteChannel config, noteNumber config) = None"
        using Cons.prems(1) c by (auto simp add: m1(3))
    qed
    show "distinct (map (\<lambda>config. (noteChannel config, noteNumber config)) cs)"
      using Cons.prems(2) by simp
  qed
  have upt: "[nextTimerId m ..< nextTimerId m + length (x # cs)] =
      nextTimerId m # [Suc (nextTimerId m) ..< Suc (nextTimerId m) + length cs]"
    by (subst upt_rec) simp
  show ?case
    unfolding upt by (simp add: IH m1)
qed

lemma triggerPlayback_fanout:
  "hasOutput (midi a) \<Longrightarrow>
   sent (midi (triggerPlayback dateNow a)) = sent (midi a) @
     map (\<lambda>config. (performanceNow (midi a),
        [0x90 + noteChannel config, noteNumber config, velocity config]))
       (filter noteEnabled (noteConfigs a)) @
     map (\<lambda>config. (performanceNow (midi a),
        [0xB0 + controlChannel config, controller config, controlValue config]))
       (filter controlEnabled (controlConfigs a))"
  using foldl_playNote_sent[of "midi a" "filter noteEnabled (noteConfigs a)"]
  by (simp add: triggerPlayback_def Let_def foldl_control_sent)

lemma triggerPlayback_timers:
  assumes "\<forall>config\<in>set (filter noteEnabled (noteConfigs a)).
      noteOffTimeouts (midi a) (noteChannel config, noteNumber config) = None"
    "distinct (map (\<lambda>config. (noteChannel config, noteNumber config))
       (filter noteEnabled (noteConfigs a)))"
  shows "timers (midi (triggerPlayback dateNow a)) = timers (midi a) @
     map (\<lambda>(i, config). (i, performanceNow (midi a) + 100,
        NoteOffTimer (noteNumber config) (noteChannel config)))
       (zip [nextTimerId (midi a) ..<
             nextTimerId (midi a) + length (filter noteEnabled (noteConfigs a))]
          (filter noteEnabled (noteConfigs a)))"
  using foldl_playNote_timers[OF assms]
  by (simp add: triggerPlayback_def Let_def foldl_control_timers)

lemma triggerPlayback_state:
  "lastTriggerTime (playbackState (triggerPlayback dateNow a)) = Some dateNow"
  by (simp add: triggerPlayback_def Let_def)

section \<open>Claims about the MIDI service and playback\<close>

text \<open>
  C2. On an idle service with an output (and timer ids above 0, as the browser's are),
  \<open>playNote\<close> for the same channel and note at
  time 0 and again at time 50, each with a duration of 100 ms, sends two note-ons and
  exactly one note-off, at time 150: by any time before 150 no note-off was sent, the
  one the first call had scheduled for 100 included. In any state, \<open>playNote\<close> takes the
  pending note-off timer recorded for its key out of the timer table and records a new
  one, due \<open>duration\<close> later, under the same key.
\<close>

theorem retrigger_single_note_off:
  "(hasOutput m \<and> timers m = [] \<and> performanceNow m = 0 \<and> 0 < nextTimerId m \<longrightarrow>
      sent (advance T (playNote n v c 100 (advance 50 (playNote n v c 100 m)))) =
        sent m @ [(0, [0x90 + c, n, v]), (50, [0x90 + c, n, v])] @
        (if 150 \<le> T then [(150, [0x80 + c, n, 0])] else [])) \<and>
   (noteOffTimeouts m (c, n) = Some tid \<and> tid \<noteq> 0 \<and> tid \<noteq> nextTimerId m \<longrightarrow>
      tid \<notin> fst ` set (timers (playNote n v c d m)) \<and>
      noteOffTimeouts (playNote n v c d m) (c, n) = Some (nextTimerId m) \<and>
      (nextTimerId m, performanceNow m + max 0 d, NoteOffTimer n c)
        \<in> set (timers (playNote n v c d m)))"
  using retrigger_sent[where m = m and n = n and v = v and c = c and T = T]
    playNote_cancels[where m = m and c = c and n = n and tid = tid and v = v and d = d]
  by blast

theorem retrigger_single_note_off_witness:
  "hasOutput (midi_init\<lparr>hasOutput := True\<rparr>) \<and> timers (midi_init\<lparr>hasOutput := True\<rparr>) = [] \<and>
   performanceNow (midi_init\<lparr>hasOutput := True\<rparr>) = 0 \<and>
   0 < nextTimerId (midi_init\<lparr>hasOutput := True\<rparr>) \<and>
   sent (advance 200 (playNote 60 100 0 100 (advance 50
      (playNote 60 100 0 100 (midi_init\<lparr>hasOutput := True\<rparr>))))) =
     [(0, [144, 60, 100]), (50, [144, 60, 100]), (150, [128, 60, 0])] \<and>
   sent (advance 100 (playNote 60 100 0 100 (advance 50
      (playNote 60 100 0 100 (midi_init\<lparr>hasOutput := True\<rparr>))))) =
     [(0, [144, 60, 100]), (50, [144, 60, 100])] \<and>
   noteOffTimeouts (playNote 60 100 0 100 (midi_init\<lparr>hasOutput := True\<rparr>)) (0, 60) = Some 1 \<and>
   (1::nat) \<noteq> 0 \<and>
   1 \<noteq> nextTimerId (playNote 60 100 0 100 (midi_init\<lparr>hasOutput := True\<rparr>)) \<and>
   1 \<notin> fst ` set (timers (playNote 60 100 0 100
      (playNote 60 100 0 100 (midi_init\<lparr>hasOutput := True\<rparr>))))"
proof -
  define m where "m = midi_init\<lparr>hasOutput := True\<rparr>"
  have h: "hasOutput m" "timers m = []" "performanceNow m = 0" "0 < nextTimerId m"
    "sent m = []" "nextTimerId m = 1"
    by (simp_all add: m_def midi_init_def)
  define m1 where "m1 = playNote 60 100 0 100 m"
  have k: "noteOffTimeouts m1 (0, 60) = Some 1" "1 \<noteq> nextTimerId m1"
    unfolding m1_def playNote_idle[OF h(1,2)] by (simp_all add: h)
  show ?thesis
    using retrigger_single_note_off[of m 200 60 100 0 0 0]
      retrigger_single_note_off[of m 100 60 100 0 0 0]
      retrigger_single_note_off[of m1 0 60 100 0 1 100] h k
    unfolding m1_def m_def by simp
qed




text \<open>
  C4 as stated fails. A note instance of the pattern service is played at time 0 for
  100 ms and deleted at time 50: the note-off timer is still pending, due at 100, and
  nothing but the note-on has been sent.
\<close>

theorem delete_while_sounding_counterexample:
  "timers (midi (noteDelete
      \<lparr>instanceId = ''midi_1_0'', instanceNote = 60, instanceVelocity = 100,
         instanceChannel = 0, hasOnDelete = True\<rparr>
      (advanceApp 50 (patternPlayNote
         \<lparr>instanceId = ''midi_1_0'', instanceNote = 60, instanceVelocity = 100,
            instanceChannel = 0, hasOnDelete = True\<rparr> 100
         (app_init\<lparr>patternNotes := [\<lparr>instanceId = ''midi_1_0'', instanceNote = 60,
              instanceVelocity = 100, instanceChannel = 0, hasOnDelete = True\<rparr>],
            midi := midi_init\<lparr>hasOutput := True\<rparr>\<rparr>))))) = [(1, 100, NoteOffTimer 60 0)] \<and>
   sent (midi (noteDelete
      \<lparr>instanceId = ''midi_1_0'', instanceNote = 60, instanceVelocity = 100,
         instanceChannel = 0, hasOnDelete = True\<rparr>
      (advanceApp 50 (patternPlayNote
         \<lparr>instanceId = ''midi_1_0'', instanceNote = 60, instanceVelocity = 100,
            instanceChannel = 0, hasOnDelete = True\<rparr> 100
         (app_init\<lparr>patternNotes := [\<lparr>instanceId = ''midi_1_0'', instanceNote = 60,
              instanceVelocity = 100, instanceChannel = 0, hasOnDelete = True\<rparr>],
            midi := midi_init\<lparr>hasOutput := True\<rparr>\<rparr>))))) = [(0, [144, 60, 100])]"
  by code_simp

text \<open>
  C4, amended. \<open>delete\<close> of a note instance and \<open>removeNoteConfig\<close> take the instance out
  of its registry and leave the MIDI service as it was, timers included. A note that
  is sounding when its instance is deleted gets its note-off from the timer that
  \<open>playNote\<close> armed, at the time it was due, and not before.
\<close>

theorem delete_leaves_note_off_armed:
  "midi (noteDelete x a) = midi a \<and>
   midi (removeNoteConfig dateNow i a) = midi a \<and>
   i \<notin> noteId ` set (noteConfigs (removeNoteConfig dateNow i a)) \<and>
   (hasOnDelete x \<longrightarrow> instanceId x \<notin> instanceId ` set (patternNotes (noteDelete x a))) \<and>
   (hasOutput (midi a) \<and> timers (midi a) = [] \<and> 0 \<le> d \<longrightarrow>
      sent (midi (advanceApp T (noteDelete x (patternPlayNote x d a)))) =
        sent (midi a) @
        [(performanceNow (midi a), [0x90 + instanceChannel x, instanceNote x, instanceVelocity x])] @
        (if performanceNow (midi a) + d \<le> T
         then [(performanceNow (midi a) + d, [0x80 + instanceChannel x, instanceNote x, 0])]
         else []))"
proof -
  have "sent (midi (advanceApp T (noteDelete x (patternPlayNote x d a)))) =
        sent (midi a) @
        [(performanceNow (midi a), [0x90 + instanceChannel x, instanceNote x, instanceVelocity x])] @
        (if performanceNow (midi a) + d \<le> T
         then [(performanceNow (midi a) + d, [0x80 + instanceChannel x, instanceNote x, 0])]
         else [])"
    if "hasOutput (midi a)" "timers (midi a) = []" "0 \<le> d"
    using play_then_advance_sent[OF that, of T "instanceNote x" "instanceVelocity x" "instanceChannel x"]
    by (simp add: advanceApp_def delete_keeps_midi patternPlayNote_def)
  then show ?thesis
    by (auto simp add: delete_keeps_midi noteDelete_def deleteNoteById_def removeNoteConfig_def)
qed

theorem delete_leaves_note_off_armed_witness:
  "hasOnDelete \<lparr>instanceId = ''midi_1_0'', instanceNote = 60, instanceVelocity = 100,
      instanceChannel = 0, hasOnDelete = True\<rparr> \<and>
   hasOutput (midi (app_init\<lparr>midi := midi_init\<lparr>hasOutput := True\<rparr>\<rparr>)) \<and>
   timers (midi (app_init\<lparr>midi := midi_init\<lparr>hasOutput := True\<rparr>\<rparr>)) = [] \<and>
   (0::rat) \<le> 100 \<and>
   sent (midi (advanceApp 100 (noteDelete
      \<lparr>instanceId = ''midi_1_0'', instanceNote = 60, instanceVelocity = 100,
         instanceChannel = 0, hasOnDelete = True\<rparr>
      (patternPlayNote
         \<lparr>instanceId = ''midi_1_0'', instanceNote = 60, instanceVelocity = 100,
            instanceChannel = 0, hasOnDelete = True\<rparr> 100
         (app_init\<lparr>midi := midi_init\<lparr>hasOutput := True\<rparr>\<rparr>))))) =
     [(0, [144, 60, 100]), (100, [128, 60, 0])]"
  using delete_leaves_note_off_armed[of
      "\<lparr>instanceId = ''midi_1_0'', instanceNote = 60, instanceVelocity = 100,
         instanceChannel = 0, hasOnDelete = True\<rparr>"
      "app_init\<lparr>midi := midi_init\<lparr>hasOutput := True\<rparr>\<rparr>" 0 "''x''" 100 100]
  by (simp add: app_init_def midi_init_def)

text \<open>
  C5 as stated fails. Two ticks at 1000 and 1020 leave one interval of 20 ms in the
  window. The watchdog fires at 3020 and turns the receiving flag and the tempo off,
  but the window still holds the interval, and a tick at 5000 adds the gap since the
  last tick before the silence to it.
\<close>

theorem watchdog_keeps_window_counterexample:
  "\<not> isReceivingClock (advance 3020 (feedClock [1000, 1020] midi_init)) \<and>
   detectedBPM (advance 3020 (feedClock [1000, 1020] midi_init)) = Finite 0 \<and>
   clockTimes (advance 3020 (feedClock [1000, 1020] midi_init)) = [20] \<and>
   clockTimes (handleMidiClock (advance 5000 (advance 3020 (feedClock [1000, 1020] midi_init))))
     = [20, 3980]"
proof -
  define m where "m = feedClock [1000, 1020] midi_init"
  have e: "m = feedClock (uniformTicks 1000 20 (Suc (Suc 0))) midi_init"
    by (simp add: m_def uniformTicks_def)
  have m: "lastClockTime m = 1020" "performanceNow m = 1020" "clockTimes m = [20]"
    "timers m = [(2, 3020, ClockWatchdog)]"
    unfolding e using feed_uniform[of 1000 20 "Suc 0"] by simp_all
  have off: "\<not> isReceivingClock (advance 3020 m) \<and> detectedBPM (advance 3020 m) = Finite 0"
    by (rule advance_watchdog_fires[of 2 3020]) (simp_all add: m)
  have ct: "clockTimes (advance 3020 m) = [20]" by (simp add: advance_clock_fields m)
  have "clockTimes (handleMidiClock (advance 5000 (advance 3020 m))) = [20, 3980]"
    by (simp add: handleMidiClock_clockTimes advance_clock_fields advance_performanceNow m)
  then show ?thesis using off ct unfolding m_def by simp
qed

text \<open>
  C5, amended. A tick turns the receiving flag on and arms the watchdog. Once 2000 ms
  have passed since the tick with no further tick, the receiving flag is off and
  \<open>detectedBPM\<close> is 0, while the interval window and the time of the last tick are what
  they were after the tick; the window is not empty when an earlier tick had been
  recorded. (The timer ids in the table are older than the next one the browser gives
  out.)
\<close>

theorem watchdog_expiry:
  assumes "\<forall>u\<in>set (timers m). fst u \<noteq> nextTimerId m" "performanceNow m + 2000 \<le> T"
  shows "isReceivingClock (handleMidiClock m) \<and>
         \<not> isReceivingClock (advance T (handleMidiClock m)) \<and>
         detectedBPM (advance T (handleMidiClock m)) = Finite 0 \<and>
         clockTimes (advance T (handleMidiClock m)) = clockTimes (handleMidiClock m) \<and>
         lastClockTime (advance T (handleMidiClock m)) = performanceNow m \<and>
         (0 < lastClockTime m \<longrightarrow> clockTimes (advance T (handleMidiClock m)) \<noteq> [])"
proof -
  obtain ts where ts: "timers (handleMidiClock m) =
      ts @ [(nextTimerId m, performanceNow m + 2000, ClockWatchdog)]" "set ts \<subseteq> set (timers m)"
    using handleMidiClock_timers[of m] by blast
  have "\<not> isReceivingClock (advance T (handleMidiClock m)) \<and>
        detectedBPM (advance T (handleMidiClock m)) = Finite 0"
  proof (rule advance_watchdog_fires)
    show "(nextTimerId m, performanceNow m + 2000, ClockWatchdog) \<in> set (timers (handleMidiClock m))"
      by (simp add: ts(1))
    show "performanceNow m + 2000 \<le> T" by (rule assms(2))
    show "\<forall>u\<in>set (timers (handleMidiClock m)).
           fst u = nextTimerId m \<longrightarrow> u = (nextTimerId m, performanceNow m + 2000, ClockWatchdog)"
      using assms(1) ts(2) by (auto simp: ts(1))
  qed
  then show ?thesis
    using handleMidiClock_stale[of m]
    by (simp add: advance_clock_fields handleMidiClock_lastClockTime handleMidiClock_receiving)
qed

theorem watchdog_expiry_witness:
  "list_all (\<lambda>u. fst u \<noteq> nextTimerId (handleMidiClock (midi_init\<lparr>performanceNow := 1000\<rparr>)))
     (timers (handleMidiClock (midi_init\<lparr>performanceNow := 1000\<rparr>))) \<and>
   performanceNow (handleMidiClock (midi_init\<lparr>performanceNow := 1000\<rparr>)) + 2000 \<le> 3500 \<and>
   0 < lastClockTime (handleMidiClock (midi_init\<lparr>performanceNow := 1000\<rparr>)) \<and>
   \<not> isReceivingClock (advance 3500 (handleMidiClock (handleMidiClock
        (midi_init\<lparr>performanceNow := 1000\<rparr>)))) \<and>
   detectedBPM (advance 3500 (handleMidiClock (handleMidiClock
        (midi_init\<lparr>performanceNow := 1000\<rparr>)))) = Finite 0 \<and>
   clockTimes (advance 3500 (handleMidiClock (handleMidiClock
        (midi_init\<lparr>performanceNow := 1000\<rparr>)))) \<noteq> []"
proof -
  define m0 where "m0 = midi_init\<lparr>performanceNow := 1000\<rparr>"
  define m where "m = handleMidiClock m0"
  have m0: "timers m0 = []" "clockTimeout m0 = None" "nextTimerId m0 = 1"
    "performanceNow m0 = 1000"
    by (simp_all add: m0_def midi_init_def)
  have m: "timers m = [(1, 3000, ClockWatchdog)]" "nextTimerId m = 2" "performanceNow m = 1000"
    "lastClockTime m = 1000"
    unfolding m_def
    by (simp_all add: handleMidiClock_first_timer[OF m0(1,2)] m0 handleMidiClock_performanceNow
        handleMidiClock_lastClockTime)
  have h1: "\<forall>u\<in>set (timers m). fst u \<noteq> nextTimerId m" by (simp add: m)
  have h2: "performanceNow m + 2000 \<le> 3500" by (simp add: m)
  have pos: "0 < lastClockTime m" by (simp add: m)
  show ?thesis
    using watchdog_expiry[OF h1 h2] h1 h2 pos
    unfolding list_all_iff m_def m0_def by blast
qed

text \<open>
  C7. While the internal clock runs and playback is playing and enabled, the effect
  fans out for a pulse exactly when \<open>(pulse.subdivision - 1) mod max 1 (subdivision / 4)\<close>
  is 0, and does nothing otherwise. Fanning out sets the last trigger time, sends one
  note-on for every enabled note and then one control change for every enabled
  control (when an output is selected), arms a note-off timer 100 ms ahead for every
  enabled note (stated here for enabled notes on distinct keys with no note-off
  pending), and dispatches one \<open>playbackTrigger\<close> event with the two counts. With
  subdivision 16, of the pulses with subdivision values 1, 2, 3 and 4 the one with
  value 1 dispatches and no other.
\<close>

theorem quarter_note_gate:
  assumes "lastPulse c = Some p" "clockSource c = Internal" "isRunning (clockState c)"
    "isPlaying (playbackState a)" "isEnabled (playbackState a)"
    "subdivision (clockState c) \<in> {4, 8, 16, 32}"
  shows "(dispatched dateNow c a \<longleftrightarrow> (pulseSubdivision p - 1) mod max 1 (subdivision (clockState c) div 4) = 0) \<and>
         clockPulseEffect dateNow c a =
           (if (pulseSubdivision p - 1) mod max 1 (subdivision (clockState c) div 4) = 0
            then triggerPlayback dateNow a else a) \<and>
         ((pulseSubdivision p - 1) mod max 1 (subdivision (clockState c) div 4) = 0 \<longrightarrow>
            lastTriggerTime (playbackState (clockPulseEffect dateNow c a)) = Some dateNow \<and>
            windowEvents (midi (clockPulseEffect dateNow c a)) = windowEvents (midi a) @
              [PlaybackTrigger dateNow (length (filter noteEnabled (noteConfigs a)))
                 (length (filter controlEnabled (controlConfigs a)))]) \<and>
         ((pulseSubdivision p - 1) mod max 1 (subdivision (clockState c) div 4) = 0 \<and> hasOutput (midi a) \<longrightarrow>
            sent (midi (clockPulseEffect dateNow c a)) = sent (midi a) @
              map (\<lambda>config. (performanceNow (midi a),
                 [0x90 + noteChannel config, noteNumber config, velocity config]))
                (filter noteEnabled (noteConfigs a)) @
              map (\<lambda>config. (performanceNow (midi a),
                 [0xB0 + controlChannel config, controller config, controlValue config]))
                (filter controlEnabled (controlConfigs a))) \<and>
         ((pulseSubdivision p - 1) mod max 1 (subdivision (clockState c) div 4) = 0 \<and>
          (\<forall>config\<in>set (filter noteEnabled (noteConfigs a)).
             noteOffTimeouts (midi a) (noteChannel config, noteNumber config) = None) \<and>
          distinct (map (\<lambda>config. (noteChannel config, noteNumber config))
             (filter noteEnabled (noteConfigs a))) \<longrightarrow>
            timers (midi (clockPulseEffect dateNow c a)) = timers (midi a) @
              map (\<lambda>(i, config). (i, performanceNow (midi a) + 100,
                 NoteOffTimer (noteNumber config) (noteChannel config)))
                (zip [nextTimerId (midi a) ..<
                      nextTimerId (midi a) + length (filter noteEnabled (noteConfigs a))]
                   (filter noteEnabled (noteConfigs a)))) \<and>
         ((pulseSubdivision p - 1) mod max 1 (subdivision (clockState c) div 4) \<noteq> 0 \<longrightarrow>
            clockPulseEffect dateNow c a = a) \<and>
         (subdivision (clockState c) = 16 \<longrightarrow>
            filter (\<lambda>v. dispatched dateNow (c\<lparr>lastPulse := Some (p\<lparr>pulseSubdivision := v\<rparr>)\<rparr>) a)
              [1, 2, 3, 4] = [1])"
proof -
  have sixteen: "filter (\<lambda>v. dispatched dateNow (c\<lparr>lastPulse := Some (p\<lparr>pulseSubdivision := v\<rparr>)\<rparr>) a)
          [1, 2, 3, 4] = [1]" if "subdivision (clockState c) = 16"
    using assms(2-5) that by (simp add: dispatched_iff)
  have eff: "clockPulseEffect dateNow c a =
           (if (pulseSubdivision p - 1) mod max 1 (subdivision (clockState c) div 4) = 0
            then triggerPlayback dateNow a else a)"
    by (rule gate[OF assms(1-5)])
  show ?thesis
    using dispatched_iff[OF assms(1-5), of dateNow] sixteen
      triggerPlayback_fanout[of a dateNow] triggerPlayback_timers[of a dateNow]
    by (simp add: eff triggerPlayback_state triggerPlayback_windowEvents)
qed

theorem quarter_note_gate_witness:
  "dispatched 0
     (clock_init\<lparr>clockState := (clockState clock_init)\<lparr>isRunning := True\<rparr>,
        lastPulse := Some \<lparr>timestamp = 500, beat = 2, bar = 1, pulseSubdivision = 1\<rparr>\<rparr>)
     (app_init\<lparr>playbackState := \<lparr>isPlaying = True, isEnabled = True, lastTriggerTime = None\<rparr>,
        noteConfigs :=
          [\<lparr>noteId = ''n1'', noteEnabled = True, noteNumber = 36, velocity = 100,
              noteChannel = 0, octave = 2, displayMode = Common, useFlats = False\<rparr>,
           \<lparr>noteId = ''n2'', noteEnabled = False, noteNumber = 38, velocity = 100,
              noteChannel = 0, octave = 2, displayMode = Common, useFlats = False\<rparr>],
        controlConfigs :=
          [\<lparr>controlId = ''c1'', controlEnabled = True, controller = 1, controlValue = 64,
              controlChannel = 0\<rparr>],
        midi := midi_init\<lparr>hasOutput := True\<rparr>\<rparr>) \<and>
   sent (midi (clockPulseEffect 0
     (clock_init\<lparr>clockState := (clockState clock_init)\<lparr>isRunning := True\<rparr>,
        lastPulse := Some \<lparr>timestamp = 500, beat = 2, bar = 1, pulseSubdivision = 1\<rparr>\<rparr>)
     (app_init\<lparr>playbackState := \<lparr>isPlaying = True, isEnabled = True, lastTriggerTime = None\<rparr>,
        noteConfigs :=
          [\<lparr>noteId = ''n1'', noteEnabled = True, noteNumber = 36, velocity = 100,
              noteChannel = 0, octave = 2, displayMode = Common, useFlats = False\<rparr>,
           \<lparr>noteId = ''n2'', noteEnabled = False, noteNumber = 38, velocity = 100,
              noteChannel = 0, octave = 2, displayMode = Common, useFlats = False\<rparr>],
        controlConfigs :=
          [\<lparr>controlId = ''c1'', controlEnabled = True, controller = 1, controlValue = 64,
              controlChannel = 0\<rparr>],
        midi := midi_init\<lparr>hasOutput := True\<rparr>\<rparr>))) =
     [(0, [144, 36, 100]), (0, [176, 1, 64])] \<and>
   timers (midi (clockPulseEffect 0
     (clock_init\<lparr>clockState := (clockState clock_init)\<lparr>isRunning := True\<rparr>,
        lastPulse := Some \<lparr>timestamp = 500, beat = 2, bar = 1, pulseSubdivision = 1\<rparr>\<rparr>)
     (app_init\<lparr>playbackState := \<lparr>isPlaying = True, isEnabled = True, lastTriggerTime = None\<rparr>,
        noteConfigs :=
          [\<lparr>noteId = ''n1'', noteEnabled = True, noteNumber = 36, velocity = 100,
              noteChannel = 0, octave = 2, displayMode = Common, useFlats = False\<rparr>,
           \<lparr>noteId = ''n2'', noteEnabled = False, noteNumber = 38, velocity = 100,
              noteChannel = 0, octave = 2, displayMode = Common, useFlats = False\<rparr>],
        controlConfigs :=
          [\<lparr>controlId = ''c1'', controlEnabled = True, controller = 1, controlValue = 64,
              controlChannel = 0\<rparr>],
        midi := midi_init\<lparr>hasOutput := True\<rparr>\<rparr>))) =
     [(1, 100, NoteOffTimer 36 0)] \<and>
   windowEvents (midi (clockPulseEffect 0
     (clock_init\<lparr>clockState := (clockState clock_init)\<lparr>isRunning := True\<rparr>,
        lastPulse := Some \<lparr>timestamp = 500, beat = 2, bar = 1, pulseSubdivision = 1\<rparr>\<rparr>)
     (app_init\<lparr>playbackState := \<lparr>isPlaying = True, isEnabled = True, lastTriggerTime = None\<rparr>,
        noteConfigs :=
          [\<lparr>noteId = ''n1'', noteEnabled = True, noteNumber = 36, velocity = 100,
              noteChannel = 0, octave = 2, displayMode = Common, useFlats = False\<rparr>,
           \<lparr>noteId = ''n2'', noteEnabled = False, noteNumber = 38, velocity = 100,
              noteChannel = 0, octave = 2, displayMode = Common, useFlats = False\<rparr>],
        controlConfigs :=
          [\<lparr>controlId = ''c1'', controlEnabled = True, controller = 1, controlValue = 64,
              controlChannel = 0\<rparr>],
        midi := midi_init\<lparr>hasOutput := True\<rparr>\<rparr>))) =
     [PlaybackTrigger 0 1 1]"
proof -
  define c where "c = clock_init\<lparr>clockState := (clockState clock_init)\<lparr>isRunning := True\<rparr>,
        lastPulse := Some \<lparr>timestamp = 500, beat = 2, bar = 1, pulseSubdivision = 1\<rparr>\<rparr>"
  define a where "a = app_init\<lparr>playbackState :=
        \<lparr>isPlaying = True, isEnabled = True, lastTriggerTime = None\<rparr>,
        noteConfigs :=
          [\<lparr>noteId = ''n1'', noteEnabled = True, noteNumber = 36, velocity = 100,
              noteChannel = 0, octave = 2, displayMode = Common, useFlats = False\<rparr>,
           \<lparr>noteId = ''n2'', noteEnabled = False, noteNumber = 38, velocity = 100,
              noteChannel = 0, octave = 2, displayMode = Common, useFlats = False\<rparr>],
        controlConfigs :=
          [\<lparr>controlId = ''c1'', controlEnabled = True, controller = 1, controlValue = 64,
              controlChannel = 0\<rparr>],
        midi := midi_init\<lparr>hasOutput := True\<rparr>\<rparr>"
  define r where "r = clockPulseEffect 0 c a"
  have h: "lastPulse c = Some \<lparr>timestamp = 500, beat = 2, bar = 1, pulseSubdivision = 1\<rparr>"
    "clockSource c = Internal" "isRunning (clockState c)"
    "isPlaying (playbackState a)" "isEnabled (playbackState a)"
    "subdivision (clockState c) \<in> {4, 8, 16, 32}"
    by (simp_all add: c_def a_def clock_init_def app_init_def)
  have z: "(pulseSubdivision \<lparr>timestamp = 500, beat = 2, bar = 1, pulseSubdivision = 1\<rparr> - 1)
      mod max 1 (subdivision (clockState c) div 4) = 0" by simp
  have f: "hasOutput (midi a)" "performanceNow (midi a) = 0" "nextTimerId (midi a) = 1"
    "sent (midi a) = []" "timers (midi a) = []" "windowEvents (midi a) = []"
    "noteOffTimeouts (midi a) = Map.empty"
    "filter noteEnabled (noteConfigs a) =
       [\<lparr>noteId = ''n1'', noteEnabled = True, noteNumber = 36, velocity = 100,
           noteChannel = 0, octave = 2, displayMode = Common, useFlats = False\<rparr>]"
    "filter controlEnabled (controlConfigs a) =
       [\<lparr>controlId = ''c1'', controlEnabled = True, controller = 1, controlValue = 64,
           controlChannel = 0\<rparr>]"
    by (simp_all add: a_def app_init_def midi_init_def)
  have g: "dispatched 0 c a" "sent (midi r) = [(0, [144, 36, 100]), (0, [176, 1, 64])]"
    "timers (midi r) = [(1, 100, NoteOffTimer 36 0)]"
    "windowEvents (midi r) = [PlaybackTrigger 0 1 1]"
    using quarter_note_gate[OF h, of 0] z f(1) unfolding r_def[symmetric] f(2-) by auto
  show ?thesis using g unfolding r_def c_def a_def by simp
qed

text \<open>
  C10. With playback disabled, \<open>manualTrigger\<close> returns the application as it was: no
  message is sent, no event is dispatched and the playback state, its last trigger time
  included, is unchanged.
\<close>

theorem manual_trigger_disabled:
  assumes "\<not> isEnabled (playbackState a)"
  shows "manualTrigger dateNow a = a"
  using assms by (simp add: manualTrigger_def)

theorem manual_trigger_disabled_witness:
  "\<not> isEnabled (playbackState app_init) \<and> manualTrigger 0 app_init = app_init"
proof -
  have h: "\<not> isEnabled (playbackState app_init)" by (simp add: app_init_def)
  show ?thesis using manual_trigger_disabled[OF h, of 0] h by simp
qed

end
